theory Spec2Isabelle
  imports Complex_Main
begin

text \<open>
  The TinySA spectrum-analyser driver of libscopehal (\<^verbatim>\<open>src/scopehal/TinySA.cpp\<close>) and the
  channel interface it feeds (\<^verbatim>\<open>src/scopehal/OscilloscopeChannel.h\<close>), embedded as
  functions of HOL, and the properties the specification states about them.
\<close>

section \<open>OscilloscopeChannel: download-state codes\<close>

text \<open>
  \<^verbatim>\<open>OscilloscopeChannel.h\<close>, lines 153--160: the enum \<^verbatim>\<open>DownloadState : int\<close> with its five
  enumerators and the integer each one is given in the header.
\<close>

datatype DownloadState =
    DOWNLOAD_PROGRESS_DISABLED
  | DOWNLOAD_NONE
  | DOWNLOAD_WAITING
  | DOWNLOAD_STARTED
  | DOWNLOAD_FINISHED

fun DownloadState_code :: "DownloadState \<Rightarrow> int" where
  "DownloadState_code DOWNLOAD_PROGRESS_DISABLED = -3"
| "DownloadState_code DOWNLOAD_NONE = -2"
| "DownloadState_code DOWNLOAD_WAITING = -1"
| "DownloadState_code DOWNLOAD_STARTED = 0"
| "DownloadState_code DOWNLOAD_FINISHED = 100"

text \<open>
  The doc comment of \<^verbatim>\<open>GetDownloadState()\<close> (lines 162--168): the returned int is either
  an integer from 0 to 100, the percentage downloaded, or a value of the enum.  The body of
  \<^verbatim>\<open>GetDownloadState\<close> is in OscilloscopeChannel.cpp, which is not among the sources; the
  two kinds of value the header documents are the two constructors below.
\<close>

datatype download_value = Percentage nat | StateCode DownloadState

fun download_value_valid :: "download_value \<Rightarrow> bool" where
  "download_value_valid (Percentage p) = (p \<le> 100)"
| "download_value_valid (StateCode d) = True"

fun download_value_int :: "download_value \<Rightarrow> int" where
  "download_value_int (Percentage p) = int p"
| "download_value_int (StateCode d) = DownloadState_code d"

text \<open>The four codes the specification calls sentinels.\<close>

definition spec_sentinels :: "DownloadState list" where
  "spec_sentinels =
     [DOWNLOAD_PROGRESS_DISABLED, DOWNLOAD_NONE, DOWNLOAD_WAITING, DOWNLOAD_STARTED]"

section \<open>OscilloscopeChannel: reference-counted enable state\<close>

text \<open>
  \<^verbatim>\<open>OscilloscopeChannel.h\<close> declares \<^verbatim>\<open>AddRef()\<close>, \<^verbatim>\<open>Release()\<close>, \<^verbatim>\<open>Enable()\<close>,
  \<^verbatim>\<open>Disable()\<close>, \<^verbatim>\<open>IsEnabled()\<close> and the field \<^verbatim>\<open>size_t m_refcount\<close> (``channel is
  disabled when last ref is released''); their bodies are in OscilloscopeChannel.cpp, which
  is not among the sources.  The count is unsigned, so it is a natural number here; it would
  take \<open>2 ^ 64\<close> calls of \<^verbatim>\<open>AddRef\<close> to wrap it.
\<close>

record channel =
  m_refcount :: nat
  enabled :: bool

text \<open>
  Modelled from the spec: the bodies of \<^verbatim>\<open>Enable\<close>, \<^verbatim>\<open>Disable\<close>, \<^verbatim>\<open>AddRef\<close> and
  \<^verbatim>\<open>Release\<close> (OscilloscopeChannel.cpp).  The specification:
  ``\<^verbatim>\<open>Enable()/Disable()\<close> force channel state unconditionally'';
  ``a channel is on iff its reference count > 0'';
  ``\<^verbatim>\<open>AddRef\<close> increments, \<^verbatim>\<open>Release\<close> decrements and only powers the channel off when the
  count reaches zero''; ``\<^verbatim>\<open>Release()\<close> on a zero count is a no-op''.
\<close>

definition Enable :: "channel \<Rightarrow> channel" where
  "Enable c = c\<lparr>enabled := True\<rparr>"

definition Disable :: "channel \<Rightarrow> channel" where
  "Disable c = c\<lparr>enabled := False\<rparr>"

definition IsEnabled :: "channel \<Rightarrow> bool" where
  "IsEnabled c = enabled c"

definition AddRef :: "channel \<Rightarrow> channel" where
  "AddRef c = (Enable c)\<lparr>m_refcount := m_refcount c + 1\<rparr>"

definition Release :: "channel \<Rightarrow> channel" where
  "Release c =
     (if m_refcount c = 0 then c
      else let c' = c\<lparr>m_refcount := m_refcount c - 1\<rparr>
           in if m_refcount c' = 0 then Disable c' else c')"

text \<open>A freshly constructed channel: no reference, off.\<close>

definition new_channel :: channel where
  "new_channel = \<lparr>m_refcount = 0, enabled = False\<rparr>"

datatype ref_call = CallAddRef | CallRelease

fun do_call :: "ref_call \<Rightarrow> channel \<Rightarrow> channel" where
  "do_call CallAddRef c = AddRef c"
| "do_call CallRelease c = Release c"

fun do_calls :: "ref_call list \<Rightarrow> channel \<Rightarrow> channel" where
  "do_calls [] c = c"
| "do_calls (x # xs) c = do_calls xs (do_call x c)"

text \<open>
  \<open>never_below_zero n xs\<close>: starting from \<open>n\<close> references, no \<^verbatim>\<open>Release\<close> of \<open>xs\<close> arrives at
  a count of zero (no prefix of \<open>xs\<close> holds more than \<open>n\<close> \<^verbatim>\<open>Release\<close> calls beyond its
  \<^verbatim>\<open>AddRef\<close> calls).
\<close>

fun never_below_zero :: "nat \<Rightarrow> ref_call list \<Rightarrow> bool" where
  "never_below_zero n [] = True"
| "never_below_zero n (CallAddRef # xs) = never_below_zero (Suc n) xs"
| "never_below_zero n (CallRelease # xs) = (0 < n \<and> never_below_zero (n - 1) xs)"

section \<open>TinySA: what the driver takes from outside\<close>

text \<open>
  \<^verbatim>\<open>TinySA.cpp\<close> uses constants that are declared in TinySA.h and scopehal.h, which are not
  among the sources.  They are parameters of the model: every function below takes a record
  \<open>k\<close> of them.
\<close>

record TinySA_h =
  MAX_RESPONSE_SIZE :: nat
  COMMUNICATION_TIMEOUT :: real
  TRAILER_STRING :: string
  TRAILER_STRING_LENGTH :: nat
  EOL_STRING :: string
  EOL_STRING_LENGTH :: nat
  FS_PER_SECOND :: real

text \<open>
  A byte (\<^verbatim>\<open>uint8_t\<close>, \<^verbatim>\<open>unsigned char\<close>, and the \<^verbatim>\<open>char\<close> of a \<^verbatim>\<open>std::string\<close>) is a
  \<^typ>\<open>char\<close>; \<^term>\<open>of_char\<close> reads its value 0..255.
\<close>

type_synonym byte = char

text \<open>
  What the driver logs.  Each constructor is one \<^verbatim>\<open>LogError\<close> or \<^verbatim>\<open>LogWarning\<close> call of
  the source with its arguments (\<^verbatim>\<open>LogTrace\<close> and \<^verbatim>\<open>LogDebug\<close> calls are left out).
\<close>

datatype log_entry =
    ErrTimeout
  | ErrResponseTooLong nat
  | WarnUnexpectedResponse string string
  | ErrInvalidByteCount nat nat
  | WarnInvalidOpeningByte byte
  | WarnInvalidClosingByte byte
  | WarnInvalidPointHeader byte
  | WarnRbwRejected int string
  | WarnRbwLines nat

text \<open>
  The world outside the driver: a trace of what the transport and the clock will answer, and
  a record of what the driver has written.
  \<^item> \<open>rx\<close>: the bytes each coming call of \<^verbatim>\<open>ReadRawData\<close> obtains (the empty list: nothing
    was available);
  \<^item> \<open>clock\<close>: the values the coming calls of \<^verbatim>\<open>GetTime()\<close> return, in seconds;
  \<^item> \<open>tx\<close>: the strings handed to \<^verbatim>\<open>SendCommand\<close>;
  \<^item> \<open>logs\<close>: the errors and warnings logged.
  A call that needs an answer when the trace has none left has not returned within the trace:
  its result is \<open>None\<close>.
\<close>

record world =
  rx :: "byte list list"
  clock :: "real list"
  tx :: "string list"
  logs :: "log_entry list"

text \<open>
  Modelled from the spec: the byte transport (\<^verbatim>\<open>SCPITransport\<close>, not among the sources).
  The specification's contract: ``\<^verbatim>\<open>write(bytes)\<close>; \<^verbatim>\<open>readOne(byte*) -> bool\<close> (non-blocking
  single-byte poll, false when nothing available); \<^verbatim>\<open>readN(count, buffer, optional
  progressCallback(fraction)) -> bytesActuallyRead\<close>''.  Both reads are
  \<^verbatim>\<open>m_transport->ReadRawData(len, buf)\<close> in the source: the call obtains at most \<open>len\<close> bytes,
  stores them at the start of the buffer and returns how many they are.
\<close>

definition SendCommand :: "string \<Rightarrow> world \<Rightarrow> world" where
  "SendCommand cmd w = w\<lparr>tx := tx w @ [cmd]\<rparr>"

definition ReadRawData :: "nat \<Rightarrow> world \<Rightarrow> (byte list \<times> world) option" where
  "ReadRawData len w =
     (case rx w of [] \<Rightarrow> None | bs # rest \<Rightarrow> Some (take len bs, w\<lparr>rx := rest\<rparr>))"

definition GetTime :: "world \<Rightarrow> (real \<times> world) option" where
  "GetTime w = (case clock w of [] \<Rightarrow> None | t # ts \<Rightarrow> Some (t, w\<lparr>clock := ts\<rparr>))"

definition Log :: "log_entry \<Rightarrow> world \<Rightarrow> world" where
  "Log e w = w\<lparr>logs := logs w @ [e]\<rparr>"

text \<open>
  \<^verbatim>\<open>s.size() >= n && 0 == s.compare(s.length() - n, n, t)\<close>: the last \<open>n\<close> characters of
  \<open>s\<close> are \<open>t\<close>.  \<^verbatim>\<open>s.rfind(t, 0) == 0\<close>: \<open>s\<close> starts with \<open>t\<close>.
  \<^verbatim>\<open>s.find(t) != npos\<close>: \<open>t\<close> occurs in \<open>s\<close>.
\<close>

definition ends_with :: "nat \<Rightarrow> string \<Rightarrow> string \<Rightarrow> bool" where
  "ends_with n s t = (n \<le> length s \<and> take n (drop (length s - n) s) = t)"

definition starts_with :: "string \<Rightarrow> string \<Rightarrow> bool" where
  "starts_with s t = (take (length t) s = t)"

fun contains :: "string \<Rightarrow> string \<Rightarrow> bool" where
  "contains [] t = (t = [])"
| "contains (c # s) t = (take (length t) (c # s) = t \<or> contains s t)"

text \<open>
  A read takes one answer from the trace; reading the clock and logging leave the answers
  of the transport alone.  The loops below terminate on that.
\<close>

lemma ReadRawData_rx [simp]:
  "ReadRawData n w = Some (bs, w') \<Longrightarrow> length (rx w') < length (rx w)"
  by (auto simp: ReadRawData_def split: list.splits)

lemma GetTime_rx [simp]: "GetTime w = Some (t, w') \<Longrightarrow> rx w' = rx w"
  by (auto simp: GetTime_def split: list.splits)

lemma Log_rx [simp]: "rx (Log e w) = rx w"
  by (simp add: Log_def)

section \<open>TinySA: the conversations\<close>

subsection \<open>ConverseString (lines 180--216)\<close>

text \<open>
  The \<^verbatim>\<open>while(true)\<close> loop; its variables \<^verbatim>\<open>result\<close> and \<^verbatim>\<open>bytesRead\<close> are arguments.
  Every iteration calls \<^verbatim>\<open>ReadRawData\<close> once, so the loop runs at most as long as the trace.
\<close>

function ConverseString_loop ::
  "TinySA_h \<Rightarrow> real \<Rightarrow> string \<Rightarrow> nat \<Rightarrow> world \<Rightarrow> (string \<times> world) option" where
  "ConverseString_loop k start result bytesRead w =
     (case ReadRawData 1 w of
        None \<Rightarrow> None
      | Some (bs, w1) \<Rightarrow>
          (case bs of
             [] \<Rightarrow>
               (case GetTime w1 of
                  None \<Rightarrow> None
                | Some (t, w2) \<Rightarrow>
                    if t - start \<ge> COMMUNICATION_TIMEOUT k
                    then Some (result, Log ErrTimeout w2)
                    else ConverseString_loop k start result bytesRead w2)
           | tmp # _ \<Rightarrow>
               (let result' = result @ [tmp];
                    bytesRead' = bytesRead + 1
                in if bytesRead' > MAX_RESPONSE_SIZE k
                   then Some (result', Log (ErrResponseTooLong bytesRead') w1)
                   else if ends_with (TRAILER_STRING_LENGTH k) result' (TRAILER_STRING k)
                   then Some (result', w1)
                   else ConverseString_loop k start result' bytesRead' w1)))"
  by pat_completeness auto
termination
  by (relation "measure (\<lambda>(k, start, result, bytesRead, w). length (rx w))") auto

declare ConverseString_loop.simps [simp del]

definition ConverseString :: "TinySA_h \<Rightarrow> string \<Rightarrow> world \<Rightarrow> (string \<times> world) option" where
  "ConverseString k commandString w =
     (case GetTime (SendCommand (commandString @ [CHR 0x0D, CHR 0x0A]) w) of
        None \<Rightarrow> None
      | Some (start, w1) \<Rightarrow> ConverseString_loop k start [] 0 w1)"

subsection \<open>std::stringstream and std::getline\<close>

text \<open>
  A \<^verbatim>\<open>std::stringstream\<close> read with \<^verbatim>\<open>std::getline\<close>: the characters not yet read and the
  two state bits the reads set.  \<^verbatim>\<open>getline(ss, str)\<close> first builds a sentry; if the stream is
  not good (eofbit or failbit is set) the sentry sets failbit and \<^verbatim>\<open>str\<close> is left as it was.
  Otherwise \<^verbatim>\<open>str\<close> is erased and characters are moved to it up to a line feed, which is
  taken from the stream and dropped, or up to the end of the stream, which sets eofbit;
  failbit is set when nothing was extracted.  (C++ standard, [string.io] and
  [istream.sentry].)
\<close>

record sstream =
  unread :: string
  eofbit :: bool
  failbit :: bool

definition stringstream :: "string \<Rightarrow> sstream" where
  "stringstream s = \<lparr>unread = s, eofbit = False, failbit = False\<rparr>"

definition getline :: "sstream \<Rightarrow> string \<Rightarrow> sstream \<times> string" where
  "getline ss str =
     (if eofbit ss \<or> failbit ss then (ss\<lparr>failbit := True\<rparr>, str)
      else
        (let line = takeWhile (\<lambda>c. c \<noteq> CHR 0x0A) (unread ss);
             rest = dropWhile (\<lambda>c. c \<noteq> CHR 0x0A) (unread ss)
         in case rest of
              [] \<Rightarrow> (ss\<lparr>unread := [], eofbit := True, failbit := (line = [])\<rparr>, line)
            | delim # rest' \<Rightarrow> (ss\<lparr>unread := rest'\<rparr>, line)))"

text \<open>
  Modelled from the spec: \<^verbatim>\<open>RemoveCR\<close> (declared in TinySA.h, not among the sources).  The
  specification: the line is returned ``with trailing carriage-return characters stripped''.
\<close>

definition RemoveCR :: "string \<Rightarrow> string" where
  "RemoveCR s = rev (dropWhile (\<lambda>c. c = CHR 0x0D) (rev s))"

text \<open>
  The three cases of \<open>getline\<close>, and what termination of the line loop rests on: a
  \<open>getline\<close> that does not fail shortens the stream.
\<close>

lemma getline_not_good:
  "eofbit ss \<or> failbit ss \<Longrightarrow> getline ss str = (ss\<lparr>failbit := True\<rparr>, str)"
  by (simp only: getline_def Let_def if_True if_False list.case simp_thms)

lemma getline_eof:
  "\<not> (eofbit ss \<or> failbit ss) \<Longrightarrow> dropWhile (\<lambda>c. c \<noteq> CHR 0x0A) (unread ss) = [] \<Longrightarrow>
   getline ss str =
     (ss\<lparr>unread := [], eofbit := True,
         failbit := (takeWhile (\<lambda>c. c \<noteq> CHR 0x0A) (unread ss) = [])\<rparr>,
      takeWhile (\<lambda>c. c \<noteq> CHR 0x0A) (unread ss))"
  by (simp only: getline_def Let_def if_True if_False list.case simp_thms)

lemma getline_delim:
  "\<not> (eofbit ss \<or> failbit ss) \<Longrightarrow>
   dropWhile (\<lambda>c. c \<noteq> CHR 0x0A) (unread ss) = d # rest \<Longrightarrow>
   getline ss str = (ss\<lparr>unread := rest\<rparr>, takeWhile (\<lambda>c. c \<noteq> CHR 0x0A) (unread ss))"
  by (simp only: getline_def Let_def if_True if_False list.case simp_thms)

lemma getline_shorter:
  assumes "getline ss str = (ss', str')" and "\<not> failbit ss'"
  shows "length (unread ss') < length (unread ss)"
proof (cases "eofbit ss \<or> failbit ss")
  case True
  from assms(1) have "ss' = fst (getline ss str)" by simp
  then have "ss' = ss\<lparr>failbit := True\<rparr>"
    by (simp only: getline_not_good [OF True] fst_conv)
  with assms(2) show ?thesis by simp
next
  case False
  show ?thesis
  proof (cases "dropWhile (\<lambda>c. c \<noteq> CHR 0x0A) (unread ss)")
    case Nil
    from assms(1) have "ss' = fst (getline ss str)" by simp
    then have ss': "ss' = ss\<lparr>unread := [], eofbit := True,
        failbit := (takeWhile (\<lambda>c. c \<noteq> CHR 0x0A) (unread ss) = [])\<rparr>"
      by (simp only: getline_eof [OF False Nil] fst_conv)
    with assms(2) have "takeWhile (\<lambda>c. c \<noteq> CHR 0x0A) (unread ss) \<noteq> []" by simp
    then have "unread ss \<noteq> []" by auto
    with ss' show ?thesis by simp
  next
    case (Cons d rest')
    from assms(1) have "ss' = fst (getline ss str)" by simp
    then have "ss' = ss\<lparr>unread := rest'\<rparr>"
      by (simp only: getline_delim [OF False Cons] fst_conv)
    moreover have "length (dropWhile (\<lambda>c. c \<noteq> CHR 0x0A) (unread ss)) \<le> length (unread ss)"
      by (rule length_dropWhile_le)
    ultimately show ?thesis using Cons by simp
  qed
qed

subsection \<open>ConverseSingle (lines 157--172)\<close>

definition ConverseSingle :: "TinySA_h \<Rightarrow> string \<Rightarrow> world \<Rightarrow> (string \<times> world) option" where
  "ConverseSingle k commandString w =
     (case ConverseString k commandString w of
        None \<Rightarrow> None
      | Some (response, w1) \<Rightarrow>
          (let ss = stringstream response;
               (ss1, line1) = getline ss [];
               result1 = RemoveCR line1;
               w2 = (if result1 \<noteq> commandString
                     then Log (WarnUnexpectedResponse result1 commandString) w1 else w1);
               (ss2, line2) = getline ss1 result1;
               result2 = RemoveCR line2
           in Some (result2, w2)))"

subsection \<open>ConverseMultiple (lines 124--149)\<close>

text \<open>
  The loop \<^verbatim>\<open>while (getline(ss, curLine))\<close>: it ends when \<^verbatim>\<open>getline\<close> leaves the stream
  failed.  Its variables \<^verbatim>\<open>curLine\<close>, \<^verbatim>\<open>firstLine\<close>, \<^verbatim>\<open>size\<close> and \<^verbatim>\<open>readLines\<close> are
  arguments; the warnings are collected.
\<close>

function ConverseMultiple_loop ::
  "string \<Rightarrow> sstream \<Rightarrow> string \<Rightarrow> bool \<Rightarrow> nat \<Rightarrow> string list \<Rightarrow> log_entry list
     \<Rightarrow> nat \<times> string list \<times> log_entry list" where
  "ConverseMultiple_loop commandString ss curLine firstLine size' readLines lg =
     (case getline ss curLine of
        (ss', line) \<Rightarrow>
          if failbit ss' then (size', readLines, lg)
          else
            (let curLine' = RemoveCR line
             in if firstLine then
                  ConverseMultiple_loop commandString ss' curLine' False size' readLines
                    (if curLine' \<noteq> commandString
                     then lg @ [WarnUnexpectedResponse curLine' commandString] else lg)
                else if curLine' \<noteq> [] then
                  ConverseMultiple_loop commandString ss' curLine' firstLine (size' + 1)
                    (readLines @ [curLine']) lg
                else ConverseMultiple_loop commandString ss' curLine' firstLine size' readLines
                       lg))"
  by pat_completeness auto
termination
proof (relation "measure (\<lambda>(c, ss, cur, first, n, rl, lg). length (unread ss))", goal_cases)
  case 1
  show ?case by simp
next
  case (2 commandString ss curLine firstLine size' readLines lg x y)
  show ?case using getline_shorter [OF 2(1) [symmetric] 2(2)] by simp
next
  case (3 commandString ss curLine firstLine size' readLines lg x y)
  show ?case using getline_shorter [OF 3(1) [symmetric] 3(2)] by simp
next
  case (4 commandString ss curLine firstLine size' readLines lg x y)
  show ?case using getline_shorter [OF 4(1) [symmetric] 4(2)] by simp
qed

declare ConverseMultiple_loop.simps [simp del]

definition ConverseMultiple ::
  "TinySA_h \<Rightarrow> string \<Rightarrow> string list \<Rightarrow> world \<Rightarrow> (nat \<times> string list \<times> world) option" where
  "ConverseMultiple k commandString readLines w =
     (case ConverseString k commandString w of
        None \<Rightarrow> None
      | Some (response, w1) \<Rightarrow>
          (case ConverseMultiple_loop commandString (stringstream response) [] True 0
                  readLines [] of
             (n, readLines', lg) \<Rightarrow> Some (n, readLines', w1\<lparr>logs := logs w1 @ lg\<rparr>)))"

subsection \<open>ConverseBinary (lines 226--298)\<close>

text \<open>
  The \<^verbatim>\<open>while(true)\<close> loop; its variables \<^verbatim>\<open>inHeader\<close>, \<^verbatim>\<open>inFooter\<close>, \<^verbatim>\<open>result\<close>,
  \<^verbatim>\<open>bytesRead\<close>, \<^verbatim>\<open>dataRead\<close> and the vector \<^verbatim>\<open>data\<close> are arguments.  In the payload phase
  each call of \<^verbatim>\<open>ReadRawData(length, data.begin().base(), ...)\<close> stores what it obtains at the
  start of \<^verbatim>\<open>data\<close>.  The progress callback only reports the download state to the channels
  and is left out.
\<close>

function ConverseBinary_loop ::
  "TinySA_h \<Rightarrow> string \<Rightarrow> nat \<Rightarrow> real \<Rightarrow> bool \<Rightarrow> bool \<Rightarrow> string \<Rightarrow> nat \<Rightarrow> nat \<Rightarrow> byte list
     \<Rightarrow> world \<Rightarrow> (nat \<times> byte list \<times> world) option" where
  "ConverseBinary_loop k commandString len start inHeader inFooter result bytesRead dataRead
       data w =
     (if inFooter \<or> inHeader then
        (case ReadRawData 1 w of
           None \<Rightarrow> None
         | Some (bs, w1) \<Rightarrow>
             (case bs of
                [] \<Rightarrow>
                  (case GetTime w1 of
                     None \<Rightarrow> None
                   | Some (t, w2) \<Rightarrow>
                       if t - start \<ge> COMMUNICATION_TIMEOUT k
                       then Some (dataRead, data, Log ErrTimeout w2)
                       else ConverseBinary_loop k commandString len start inHeader inFooter
                              result bytesRead dataRead data w2)
              | tmp # _ \<Rightarrow>
                  (let bytesRead' = bytesRead + 1
                   in if bytesRead' > MAX_RESPONSE_SIZE k
                      then Some (dataRead, data, Log (ErrResponseTooLong bytesRead') w1)
                      else if inHeader then
                        (let result' = result @ [tmp]
                         in if ends_with (EOL_STRING_LENGTH k) result' (EOL_STRING k)
                            then ConverseBinary_loop k commandString len start False inFooter
                                   [] bytesRead' dataRead data
                                   (if \<not> starts_with result' commandString
                                    then Log (WarnUnexpectedResponse result' commandString) w1
                                    else w1)
                            else ConverseBinary_loop k commandString len start inHeader
                                   inFooter result' bytesRead' dataRead data w1)
                      else if inFooter then
                        (let result' = result @ [tmp]
                         in if ends_with (TRAILER_STRING_LENGTH k) result' (TRAILER_STRING k)
                            then Some (dataRead, data, w1)
                            else ConverseBinary_loop k commandString len start inHeader
                                   inFooter result' bytesRead' dataRead data w1)
                      else ConverseBinary_loop k commandString len start inHeader inFooter
                             result bytesRead' dataRead data w1)))
      else
        (case ReadRawData len w of
           None \<Rightarrow> None
         | Some (bs, w1) \<Rightarrow>
             (let dataRead' = dataRead + length bs;
                  data' = bs @ drop (length bs) data
              in if dataRead' \<ge> len
                 then ConverseBinary_loop k commandString len start inHeader True result
                        bytesRead dataRead' data' w1
                 else (case GetTime w1 of
                         None \<Rightarrow> None
                       | Some (t, w2) \<Rightarrow>
                           if t - start \<ge> COMMUNICATION_TIMEOUT k
                           then Some (dataRead', data', Log ErrTimeout w2)
                           else ConverseBinary_loop k commandString len start inHeader
                                  inFooter result bytesRead dataRead' data' w2))))"
  by pat_completeness auto
termination
  by (relation "measure (\<lambda>(k, c, len, start, inH, inF, result, bytesRead, dataRead, data, w).
                   length (rx w))") (auto split: if_splits)

declare ConverseBinary_loop.simps [simp del]

text \<open>\<^verbatim>\<open>data.resize(length)\<close>: the vector is cut or filled with zero bytes.\<close>

definition resize :: "nat \<Rightarrow> byte list \<Rightarrow> byte list" where
  "resize n xs = take n xs @ replicate (n - length xs) (CHR 0x00)"

definition ConverseBinary ::
  "TinySA_h \<Rightarrow> string \<Rightarrow> byte list \<Rightarrow> nat \<Rightarrow> world \<Rightarrow> (nat \<times> byte list \<times> world) option" where
  "ConverseBinary k commandString data len w =
     (case GetTime (SendCommand (commandString @ [CHR 0x0D, CHR 0x0A]) w) of
        None \<Rightarrow> None
      | Some (start, w1) \<Rightarrow>
          ConverseBinary_loop k commandString len start True False [] 0 0 (resize len data) w1)"

section \<open>TinySA: the constructor's switch on the device model\<close>

text \<open>
  \<^verbatim>\<open>TinySA.cpp\<close>, lines 71--103.  The enum \<^verbatim>\<open>Model\<close> is declared in TinySA.h (not among
  the sources); the constructor uses its two enumerators \<^verbatim>\<open>TINY_SA\<close> and
  \<^verbatim>\<open>TINY_SA_ULTRA\<close>.
\<close>

datatype Model = TINY_SA | TINY_SA_ULTRA

text \<open>The fields of the driver that the switch assigns (all \<^verbatim>\<open>int64_t\<close>).\<close>

record model_limits =
  m_freqMin :: int
  m_freqMax :: int
  m_rbwMin :: int
  m_rbwMax :: int
  m_modelDbmOffset :: int

text \<open>
  The switch, label by label.  \<^verbatim>\<open>case TINY_SA_ULTRA\<close> ends in \<^verbatim>\<open>break\<close>.
  \<^verbatim>\<open>case TINY_SA\<close> has no \<^verbatim>\<open>break\<close>: control runs on into \<^verbatim>\<open>default\<close>, whose body is a
  single \<^verbatim>\<open>break\<close>.
\<close>

definition switch_default :: "'a model_limits_scheme \<Rightarrow> 'a model_limits_scheme" where
  "switch_default l = l"

definition switch_TINY_SA_ULTRA :: "'a model_limits_scheme \<Rightarrow> 'a model_limits_scheme" where
  "switch_TINY_SA_ULTRA l =
     l\<lparr>m_freqMin := 0, m_freqMax := 13000000000, m_rbwMin := 200, m_rbwMax := 850000,
       m_modelDbmOffset := 174\<rparr>"

definition TINY_SA_assignments :: "'a model_limits_scheme \<Rightarrow> 'a model_limits_scheme" where
  "TINY_SA_assignments l =
     l\<lparr>m_freqMin := 0, m_freqMax := 6000000000, m_rbwMin := 1, m_rbwMax := 600000,
       m_modelDbmOffset := 128\<rparr>"

definition switch_TINY_SA :: "'a model_limits_scheme \<Rightarrow> 'a model_limits_scheme" where
  "switch_TINY_SA l = switch_default (TINY_SA_assignments l)"

fun model_switch :: "Model \<Rightarrow> 'a model_limits_scheme \<Rightarrow> 'a model_limits_scheme" where
  "model_switch TINY_SA_ULTRA l = switch_TINY_SA_ULTRA l"
| "model_switch TINY_SA l = switch_TINY_SA l"

section \<open>TinySA: the driver's state and its operations\<close>

text \<open>
  The fields of the driver the modelled functions read or write.  \<^verbatim>\<open>m_sampleDepth\<close> is a
  \<^verbatim>\<open>size_t\<close>, the frequencies are \<^verbatim>\<open>int64_t\<close>.  The driver has the one channel its
  constructor creates (\<^verbatim>\<open>CH1\<close>, index 0); \<open>channel_enabled\<close> is what
  \<^verbatim>\<open>IsChannelEnabled(0)\<close> answers, and \<open>m_peaks\<close> is what \<^verbatim>\<open>FindPeaks\<close> leaves on that
  channel (both functions are outside the sources).
\<close>

record UniformAnalogWaveform =
  m_timescale :: int
  m_triggerPhase :: int
  m_startTimestamp :: int
  m_startFemtoseconds :: int
  m_samples :: "real list"

text \<open>A \<^verbatim>\<open>SequenceSet\<close> maps channels to waveforms; the channel is its index.\<close>

type_synonym SequenceSet = "(nat \<times> UniformAnalogWaveform) list"

type_synonym Peak = "int \<times> real"

record TinySA = model_limits +
  m_sampleDepth :: nat
  m_sweepStart :: int
  m_sweepStop :: int
  m_rbw :: int
  channel_enabled :: bool
  m_peaks :: "Peak list"
  m_pendingWaveforms :: "SequenceSet list"
  m_triggerOneShot :: bool
  m_triggerArmed :: bool

text \<open>
  What C++ leaves undefined and the model makes a result: a division by zero, a vector read
  out of range, the read of a variable that was never written.
\<close>

datatype fault = DivisionByZero | OutOfBounds | UninitializedRead

subsection \<open>Integers of the machine\<close>

definition size_t_max :: nat where
  "size_t_max = 2 ^ 64"

text \<open>
  Line 401, \<^verbatim>\<open>size_t toRead = nsamples * 3 + 2\<close>, and \<^verbatim>\<open>toRead-1\<close> of line 428, both in
  \<^verbatim>\<open>size_t\<close> arithmetic.
\<close>

definition payload_length :: "nat \<Rightarrow> nat" where
  "payload_length nsamples = (nsamples * 3 + 2) mod size_t_max"

definition size_t_pred :: "nat \<Rightarrow> nat" where
  "size_t_pred n = (n + size_t_max - 1) mod size_t_max"

text \<open>
  \<open>to_uint64\<close>: the conversion of an \<^verbatim>\<open>int64_t\<close> to \<^verbatim>\<open>uint64_t\<close>; \<open>to_int64\<close>: the conversion
  back (the same 64 bits read as two's complement).
\<close>

definition to_uint64 :: "int \<Rightarrow> nat" where
  "to_uint64 i = nat (i mod 2 ^ 64)"

definition to_int64 :: "nat \<Rightarrow> int" where
  "to_int64 n =
     (if n mod 2 ^ 64 < 2 ^ 63 then int (n mod 2 ^ 64) else int (n mod 2 ^ 64) - 2 ^ 64)"

subsection \<open>std::to_string\<close>

definition digit_char :: "nat \<Rightarrow> char" where
  "digit_char d = ''0123456789'' ! d"

fun to_string_nat :: "nat \<Rightarrow> string" where
  "to_string_nat n =
     (if n < 10 then [digit_char n] else to_string_nat (n div 10) @ [digit_char (n mod 10)])"

declare to_string_nat.simps [simp del]

definition to_string_int :: "int \<Rightarrow> string" where
  "to_string_int i =
     (if i < 0 then CHR ''-'' # to_string_nat (nat (- i)) else to_string_nat (nat i))"

subsection \<open>ConverseRbwValue (lines 307--335)\<close>

text \<open>
  Two library calls are parameters.  \<open>to_string_kHz val\<close> is
  \<^verbatim>\<open>std::to_string(((float)value)/1000)\<close>, the text of a \<^verbatim>\<open>float\<close>.  \<open>sscanf_i64 s\<close> is
  \<^verbatim>\<open>sscanf(s, "%" SCNi64 "kHz", &rbw)\<close>: the integer it stores in \<^verbatim>\<open>rbw\<close>, or \<open>None\<close>
  when it converts nothing and leaves the uninitialised \<^verbatim>\<open>rbw\<close> as it is.  The product
  \<^verbatim>\<open>rbw*1000\<close> is taken in 64 bits.
\<close>

definition ConverseRbwValue ::
  "TinySA_h \<Rightarrow> (int \<Rightarrow> string) \<Rightarrow> (string \<Rightarrow> int option) \<Rightarrow> bool \<Rightarrow> int \<Rightarrow> world
     \<Rightarrow> (fault + int \<times> world) option" where
  "ConverseRbwValue k to_string_kHz sscanf_i64 sendValue val w =
     (case (if sendValue then
              (case ConverseMultiple k (''rbw '' @ to_string_kHz val) [] w of
                 None \<Rightarrow> None
               | Some (lines, reply, w1) \<Rightarrow>
                   Some (if lines > 1 then Log (WarnRbwRejected val (reply ! 0)) w1 else w1))
            else Some w) of
        None \<Rightarrow> None
      | Some w1 \<Rightarrow>
          (case ConverseMultiple k ''rbw'' [] w1 of
             None \<Rightarrow> None
           | Some (lines, reply, w2) \<Rightarrow>
               if lines < 2 then Some (Inr (0, Log (WarnRbwLines lines) w2))
               else
                 (case sscanf_i64 (reply ! 1) of
                    None \<Rightarrow> Some (Inl UninitializedRead)
                  | Some rbw \<Rightarrow>
                      (let isKhz = contains (reply ! 1) ''kHz''
                       in Some (Inr (if isKhz then to_int64 (to_uint64 (rbw * 1000)) else rbw,
                                     w2))))))"

subsection \<open>SetResolutionBandwidth (lines 494--501)\<close>


subsection \<open>AcquireData (lines 393--474)\<close>

text \<open>
  \<^verbatim>\<open>data[i]\<close> on a \<^verbatim>\<open>std::vector\<close>: undefined when \<open>i\<close> is not below the size.
\<close>

definition byte_at :: "byte list \<Rightarrow> nat \<Rightarrow> byte option" where
  "byte_at data i = (if i < length data then Some (data ! i) else None)"

text \<open>
  Line 440, \<^verbatim>\<open>(((float)((data2 << 8) + data1))/32)-m_modelDbmOffset\<close>.  The two bytes are
  widened to \<^verbatim>\<open>uint16_t\<close> and promoted to \<^verbatim>\<open>int\<close>, so the sum is below \<open>2 ^ 16\<close>; its
  conversion to \<^verbatim>\<open>float\<close>, the division by 32 and the subtraction of an offset of 128 or 174
  are exact in \<^verbatim>\<open>float\<close> (the result is a multiple of 1/32 below \<open>2 ^ 11\<close> in size), so the value
  is the real number below.
\<close>

definition sample_value :: "byte \<Rightarrow> byte \<Rightarrow> int \<Rightarrow> real" where
  "sample_value data1 data2 offset =
     real_of_int (push_bit 8 (of_char data2) + of_char data1) / 32 - real_of_int offset"

text \<open>The loop \<^verbatim>\<open>for(size_t j=0; j<nsamples; j++)\<close> of lines 432--443.\<close>

function sample_loop ::
  "byte list \<Rightarrow> int \<Rightarrow> nat \<Rightarrow> nat \<Rightarrow> real list \<Rightarrow> log_entry list
     \<Rightarrow> (real list \<times> log_entry list) option" where
  "sample_loop data offset nsamples j samples lg =
     (if j < nsamples then
        (case byte_at data (1 + 3 * j) of
           None \<Rightarrow> None
         | Some data0 \<Rightarrow>
             (case byte_at data (2 + 3 * j) of
                None \<Rightarrow> None
              | Some data1 \<Rightarrow>
                  (case byte_at data (3 + 3 * j) of
                     None \<Rightarrow> None
                   | Some data2 \<Rightarrow>
                       sample_loop data offset nsamples (j + 1)
                         (samples[j := sample_value data1 data2 offset])
                         (if data0 \<noteq> CHR ''x'' then lg @ [WarnInvalidPointHeader data0]
                          else lg))))
      else Some (samples, lg))"
  by pat_completeness auto
termination
  by (relation "measure (\<lambda>(data, offset, nsamples, j, samples, lg). nsamples - j)") auto

declare sample_loop.simps [simp del]

definition scanraw_command :: "TinySA \<Rightarrow> string" where
  "scanraw_command s =
     ''scanraw '' @ to_string_int (m_sweepStart s) @ '' '' @ to_string_int (m_sweepStop s)
       @ '' '' @ to_string_nat (m_sampleDepth s)"

text \<open>
  Lines 413--421: the clock reading \<^verbatim>\<open>tstart\<close> is a \<^verbatim>\<open>double\<close>.  \<^verbatim>\<open>floor(tstart)\<close> and
  \<^verbatim>\<open>tstart - floor(tstart)\<close> are exact in \<^verbatim>\<open>double\<close>; the product with
  \<^verbatim>\<open>FS_PER_SECOND\<close> is rounded to a \<^verbatim>\<open>double\<close>, and the conversion of the product to
  \<^verbatim>\<open>int64_t\<close> cuts its fraction off.  The rounding is a parameter of \<^verbatim>\<open>AcquireData\<close>,
  \<open>round_double\<close>.
\<close>

definition double_to_int64 :: "real \<Rightarrow> int" where
  "double_to_int64 x = (if 0 \<le> x then \<lfloor>x\<rfloor> else \<lceil>x\<rceil>)"

text \<open>
  \<^verbatim>\<open>AcquireData\<close>.  \<open>FindPeaks\<close> is \<^verbatim>\<open>SpectrumChannel::FindPeaks\<close>, outside the sources: a
  parameter.  The division of line 411 has an \<^verbatim>\<open>int64_t\<close> dividend and a \<^verbatim>\<open>size_t\<close>
  divisor: it is an unsigned division.  \<^verbatim>\<open>PrepareForCpuAccess\<close>,
  \<^verbatim>\<open>MarkSamplesModifiedFromCpu\<close> and \<^verbatim>\<open>ChannelsDownloadFinished\<close> move no data of the model
  and are left out.  The result is \<open>Inr (b, s', w')\<close> when the function returns \<open>b\<close>.
\<close>

definition AcquireData ::
  "TinySA_h \<Rightarrow> (real \<Rightarrow> real) \<Rightarrow> (UniformAnalogWaveform \<Rightarrow> nat \<Rightarrow> int \<Rightarrow> Peak list) \<Rightarrow> TinySA
     \<Rightarrow> world \<Rightarrow> (fault + bool \<times> TinySA \<times> world) option" where
  "AcquireData k round_double FindPeaks s w =
     (let nsamples = m_sampleDepth s;
          command = scanraw_command s;
          toRead = payload_length nsamples
      in case ConverseBinary k command [] toRead w of
           None \<Rightarrow> None
         | Some (read, data, w1) \<Rightarrow>
             if read \<noteq> toRead
             then Some (Inr (False, s, Log (ErrInvalidByteCount read toRead) w1))
             else if nsamples = 0 then Some (Inl DivisionByZero)
             else
               (let stepsize =
                      to_int64 (to_uint64 (m_sweepStop s - m_sweepStart s) div nsamples)
                in case GetTime w1 of
                     None \<Rightarrow> None
                   | Some (tstart, w2) \<Rightarrow>
                       (let fs = double_to_int64
                                   (round_double
                                      ((tstart - real_of_int \<lfloor>tstart\<rfloor>) * FS_PER_SECOND k));
                            cap = \<lparr>m_timescale = stepsize,
                                   m_triggerPhase = m_sweepStart s,
                                   m_startTimestamp = \<lfloor>tstart\<rfloor>,
                                   m_startFemtoseconds = fs,
                                   m_samples = replicate nsamples 0\<rparr>
                        in case byte_at data 0 of
                             None \<Rightarrow> Some (Inl OutOfBounds)
                           | Some opening \<Rightarrow>
                               (case byte_at data (size_t_pred toRead) of
                                  None \<Rightarrow> Some (Inl OutOfBounds)
                                | Some closing \<Rightarrow>
                                    (let lg1 = (if opening \<noteq> CHR ''{''
                                                then [WarnInvalidOpeningByte opening] else []);
                                         lg2 = (if closing \<noteq> CHR ''}''
                                                then lg1 @ [WarnInvalidClosingByte closing]
                                                else lg1)
                                     in case sample_loop data (m_modelDbmOffset s) nsamples 0
                                               (m_samples cap) lg2 of
                                          None \<Rightarrow> Some (Inl OutOfBounds)
                                        | Some (samples, lg3) \<Rightarrow>
                                            (let cap' = cap\<lparr>m_samples := samples\<rparr>;
                                                 seq = (if channel_enabled s then [(0, cap')]
                                                        else []);
                                                 s1 = s\<lparr>m_peaks := FindPeaks cap' 10 500000,
                                                        m_pendingWaveforms :=
                                                          m_pendingWaveforms s @ [seq]\<rparr>;
                                                 s2 = (if m_triggerOneShot s1
                                                       then s1\<lparr>m_triggerArmed := False\<rparr>
                                                       else s1)
                                             in Some (Inr (True, s2,
                                                  w2\<lparr>logs := logs w2 @ lg3\<rparr>))))))))"

section \<open>What an acquisition produces\<close>

text \<open>
  The results below describe the waveform and the warnings of a successful acquisition with
  these functions of the payload \<open>data\<close>: the decoded samples \<open>j..<n\<close>, the
  warnings for the point headers of the samples \<open>j..<n\<close>, the warnings for the two
  brackets, and the whole waveform.
\<close>

definition decoded_samples :: "byte list \<Rightarrow> int \<Rightarrow> nat \<Rightarrow> nat \<Rightarrow> real list" where
  "decoded_samples data offset j n =
     map (\<lambda>i. sample_value (data ! (2 + 3 * i)) (data ! (3 + 3 * i)) offset) [j..<n]"

definition point_warnings :: "byte list \<Rightarrow> nat \<Rightarrow> nat \<Rightarrow> log_entry list" where
  "point_warnings data j n =
     concat (map (\<lambda>i. if data ! (1 + 3 * i) \<noteq> CHR ''x''
                       then [WarnInvalidPointHeader (data ! (1 + 3 * i))] else []) [j..<n])"

definition bracket_warnings :: "byte list \<Rightarrow> nat \<Rightarrow> log_entry list" where
  "bracket_warnings data n =
     (if data ! 0 \<noteq> CHR ''{'' then [WarnInvalidOpeningByte (data ! 0)] else [])
     @ (if data ! (3 * n + 1) \<noteq> CHR ''}'' then [WarnInvalidClosingByte (data ! (3 * n + 1))]
        else [])"

definition acquired_waveform ::
  "TinySA_h \<Rightarrow> (real \<Rightarrow> real) \<Rightarrow> TinySA \<Rightarrow> real \<Rightarrow> byte list \<Rightarrow> UniformAnalogWaveform" where
  "acquired_waveform k round_double s tstart data =
     \<lparr>m_timescale = to_int64 (to_uint64 (m_sweepStop s - m_sweepStart s) div m_sampleDepth s),
      m_triggerPhase = m_sweepStart s,
      m_startTimestamp = \<lfloor>tstart\<rfloor>,
      m_startFemtoseconds =
        double_to_int64 (round_double ((tstart - real_of_int \<lfloor>tstart\<rfloor>) * FS_PER_SECOND k)),
      m_samples = decoded_samples data (m_modelDbmOffset s) 0 (m_sampleDepth s)\<rparr>"

text \<open>
  What \<^verbatim>\<open>ConverseBinary\<close> can return: no payload byte, at least the requested number, or it
  ended on a timeout.
\<close>

definition count_all_or_nothing :: "nat \<Rightarrow> nat \<Rightarrow> world \<Rightarrow> bool" where
  "count_all_or_nothing len n w' =
     (n = 0 \<or> len \<le> n \<or> (logs w' \<noteq> [] \<and> last (logs w') = ErrTimeout))"

section \<open>Example runs\<close>

text \<open>
  A configuration, a driver state and transport traces on which the results below are
  evaluated.  The values of \<open>example_h\<close> are an example: the header that fixes them is not
  among the sources.
\<close>

definition example_h :: TinySA_h where
  "example_h =
     \<lparr>MAX_RESPONSE_SIZE = 32, COMMUNICATION_TIMEOUT = 5, TRAILER_STRING = ''ch> '',
      TRAILER_STRING_LENGTH = 4, EOL_STRING = [CHR 0x0D, CHR 0x0A], EOL_STRING_LENGTH = 2,
      FS_PER_SECOND = 1000000000000000\<rparr>"

definition example_tinysa :: "nat \<Rightarrow> TinySA" where
  "example_tinysa n =
     \<lparr>m_freqMin = 0, m_freqMax = 6000000000, m_rbwMin = 1, m_rbwMax = 600000,
      m_modelDbmOffset = 128, m_sampleDepth = n, m_sweepStart = 100, m_sweepStop = 201,
      m_rbw = 1000, channel_enabled = True, m_peaks = [], m_pendingWaveforms = [],
      m_triggerOneShot = True, m_triggerArmed = True\<rparr>"

definition example_ultra :: TinySA where
  "example_ultra = model_switch TINY_SA_ULTRA (example_tinysa 2)"

definition one_by_one :: "string \<Rightarrow> byte list list" where
  "one_by_one s = map (\<lambda>c. [c]) s"


text \<open>
  The products of the example runs are whole numbers below \<open>2 ^ 53\<close>, which a
  \<^verbatim>\<open>double\<close> holds exactly.
\<close>

definition no_rounding :: "real \<Rightarrow> real" where
  "no_rounding x = x"

definition no_peaks :: "UniformAnalogWaveform \<Rightarrow> nat \<Rightarrow> int \<Rightarrow> Peak list" where
  "no_peaks cap n d = []"

text \<open>
  Payloads of two samples: one with a wrong point header and a wrong closing bracket, one
  well formed.
\<close>

definition odd_payload :: "byte list" where
  "odd_payload = [CHR ''{'', CHR ''x'', CHR 0x20, CHR 0x10, CHR ''y'', CHR 0xFF, CHR 0xFF, CHR '']'']"

definition good_payload :: "byte list" where
  "good_payload = [CHR ''{'', CHR ''x'', CHR 0x20, CHR 0x10, CHR ''x'', CHR 0xFF, CHR 0xFF, CHR ''}'']"

text \<open>
  Traces.  \<open>full_read_world\<close>: the echo, the whole payload, the prompt.
  \<open>short_read_world\<close>: 10 of 20 payload bytes, then nothing until the timeout.
  \<open>long_footer_world\<close>: the whole payload, then more bytes than the budget of
  \<open>example_h\<close> allows before any prompt.  \<open>echo_then_silence\<close>: the echo of the command
  without its line end, then nothing until the timeout.  \<open>last_byte_world\<close>: one more byte is
  waiting.  \<open>silent_world\<close>: no byte is waiting and the clock reads 6 s.
  \<open>rbw_world\<close>: the answers to the two commands of
  \<^verbatim>\<open>SetResolutionBandwidth\<close>, the second one given as its argument, and the world after
  the first and after the second.
\<close>

definition full_read_world :: world where
  "full_read_world =
     \<lparr>rx = one_by_one (''scanraw 100 201 2'' @ [CHR 0x0D, CHR 0x0A]) @ [odd_payload]
            @ one_by_one ''ch> '',
      clock = [0, 13 / 8], tx = [], logs = []\<rparr>"

definition short_read_world :: world where
  "short_read_world =
     \<lparr>rx = one_by_one (''scanraw 100 201 6'' @ [CHR 0x0D, CHR 0x0A]) @ [''{x12x34x56''],
      clock = [0, 6], tx = [], logs = []\<rparr>"

definition long_footer_world :: world where
  "long_footer_world =
     \<lparr>rx = one_by_one (''scanraw 100 201 2'' @ [CHR 0x0D, CHR 0x0A]) @ [good_payload]
            @ one_by_one ''0123456789abcdefch> '',
      clock = [0, 13 / 8], tx = [], logs = []\<rparr>"

definition long_footer_end :: world where
  "long_footer_end =
     \<lparr>rx = one_by_one ''efch> '', clock = [13 / 8],
      tx = [''scanraw 100 201 2'' @ [CHR 0x0D, CHR 0x0A]],
      logs = [ErrResponseTooLong 33]\<rparr>"

definition echo_then_silence :: world where
  "echo_then_silence =
     \<lparr>rx = one_by_one ''version'' @ [[], []], clock = [0, 1, 6], tx = [], logs = []\<rparr>"

definition last_byte_world :: world where
  "last_byte_world = \<lparr>rx = [''a''], clock = [], tx = [], logs = []\<rparr>"

definition silent_world :: world where
  "silent_world = \<lparr>rx = [[]], clock = [6], tx = [], logs = []\<rparr>"










section \<open>Reference counting: invariants of a run\<close>

lemma do_call_enabled_iff:
  "enabled c = (0 < m_refcount c) \<Longrightarrow> enabled (do_call x c) = (0 < m_refcount (do_call x c))"
  by (cases x) (auto simp: AddRef_def Release_def Enable_def Disable_def Let_def)

lemma do_calls_enabled_iff:
  "enabled c = (0 < m_refcount c) \<Longrightarrow> enabled (do_calls xs c) = (0 < m_refcount (do_calls xs c))"
proof (induction xs arbitrary: c)
  case Nil
  then show ?case by simp
next
  case (Cons x xs)
  from Cons.prems have "enabled (do_call x c) = (0 < m_refcount (do_call x c))"
    by (rule do_call_enabled_iff)
  then show ?case using Cons.IH by simp
qed

lemma Release_count: "0 < m_refcount c \<Longrightarrow> m_refcount (Release c) = m_refcount c - 1"
  by (simp add: Release_def Disable_def Let_def)

lemma do_calls_count:
  "never_below_zero (m_refcount c) xs \<Longrightarrow>
     m_refcount (do_calls xs c) + count_list xs CallRelease
       = m_refcount c + count_list xs CallAddRef"
proof (induction xs arbitrary: c)
  case Nil
  then show ?case by simp
next
  case (Cons x xs)
  show ?case
  proof (cases x)
    case CallAddRef
    with Cons.prems have "never_below_zero (m_refcount (AddRef c)) xs"
      by (simp add: AddRef_def Enable_def)
    from Cons.IH [OF this] show ?thesis
      using CallAddRef by (simp add: AddRef_def Enable_def)
  next
    case CallRelease
    with Cons.prems have pos: "0 < m_refcount c" and "never_below_zero (m_refcount c - 1) xs"
      by simp_all
    then have "never_below_zero (m_refcount (Release c)) xs"
      by (simp add: Release_count)
    from Cons.IH [OF this] show ?thesis
      using CallRelease pos by (simp add: Release_count)
  qed
qed

section \<open>TinySA: properties of the transport and of the conversations\<close>

lemma ReadRawData_Some:
  assumes "ReadRawData n w = Some (bs, w')"
  obtains b rest where "rx w = b # rest" and "bs = take n b" and "w' = w\<lparr>rx := rest\<rparr>"
proof (cases "rx w")
  case Nil
  with assms show ?thesis by (simp add: ReadRawData_def)
next
  case (Cons b rest)
  with assms have "Some (take n b, w\<lparr>rx := rest\<rparr>) = Some (bs, w')"
    by (simp only: ReadRawData_def list.case)
  then have "bs = take n b" and "w' = w\<lparr>rx := rest\<rparr>"
    by (simp_all only: option.inject prod.inject)
  with Cons that show ?thesis by blast
qed

lemma GetTime_Some:
  assumes "GetTime w = Some (t, w')"
  obtains ts where "clock w = t # ts" and "w' = w\<lparr>clock := ts\<rparr>"
proof (cases "clock w")
  case Nil
  with assms show ?thesis by (simp add: GetTime_def)
next
  case (Cons t' ts)
  with assms have "Some (t', w\<lparr>clock := ts\<rparr>) = Some (t, w')"
    by (simp only: GetTime_def list.case)
  then have "t' = t" and "w' = w\<lparr>clock := ts\<rparr>"
    by (simp_all only: option.inject prod.inject)
  with Cons that show ?thesis by blast
qed

lemma ReadRawData_length: "ReadRawData n w = Some (bs, w') \<Longrightarrow> length bs \<le> n"
  by (auto simp: ReadRawData_def split: list.splits)

lemma ReadRawData_tx: "ReadRawData n w = Some (bs, w') \<Longrightarrow> tx w' = tx w"
  by (erule ReadRawData_Some) simp

lemma GetTime_tx: "GetTime w = Some (t, w') \<Longrightarrow> tx w' = tx w"
  by (erule GetTime_Some) simp

lemma Log_tx [simp]: "tx (Log e w) = tx w"
  by (simp add: Log_def)

subsection \<open>What is written to the transport\<close>

lemma ConverseString_loop_tx:
  "ConverseString_loop k start result bytesRead w = Some (r, w') \<Longrightarrow> tx w' = tx w"
proof (induction k start result bytesRead w rule: ConverseString_loop.induct)
  case (1 k start result bytesRead w)
  note run = "1.prems" [unfolded ConverseString_loop.simps [of k start result bytesRead w]]
  from run obtain bs w1 where rd: "ReadRawData 1 w = Some (bs, w1)"
    by (cases "ReadRawData 1 w") auto
  have tx1: "tx w1 = tx w" using rd by (rule ReadRawData_tx)
  show ?case
  proof (cases bs)
    case Nil
    with run rd obtain t w2 where gt: "GetTime w1 = Some (t, w2)"
      by (cases "GetTime w1") auto
    have tx2: "tx w2 = tx w1" using gt by (rule GetTime_tx)
    show ?thesis
    proof (cases "COMMUNICATION_TIMEOUT k \<le> t - start")
      case True
      with run rd Nil gt have "w' = Log ErrTimeout w2" by simp
      then have "tx w' = tx w2" by simp
      also note tx2 also note tx1
      finally show ?thesis .
    next
      case False
      with run rd Nil gt
      have "ConverseString_loop k start result bytesRead w2 = Some (r, w')" by simp
      then have "tx w' = tx w2" by (rule "1.IH"(1) [OF rd refl Nil gt refl False])
      also note tx2 also note tx1
      finally show ?thesis .
    qed
  next
    case (Cons tmp rest)
    show ?thesis
    proof (cases "MAX_RESPONSE_SIZE k < bytesRead + 1")
      case True
      with run rd Cons have "w' = Log (ErrResponseTooLong (bytesRead + 1)) w1"
        by (simp add: Let_def)
      then have "tx w' = tx w1" by simp
      also note tx1
      finally show ?thesis .
    next
      case over: False
      show ?thesis
      proof (cases "ends_with (TRAILER_STRING_LENGTH k) (result @ [tmp]) (TRAILER_STRING k)")
        case True
        with run rd Cons over have "w' = w1" by (simp add: Let_def)
        with tx1 show ?thesis by (simp only:)
      next
        case False
        with run rd Cons over
        have "ConverseString_loop k start (result @ [tmp]) (bytesRead + 1) w1 = Some (r, w')"
          by (simp add: Let_def)
        then have "tx w' = tx w1"
          by (rule "1.IH"(2) [OF rd refl Cons refl refl over False])
        also note tx1
        finally show ?thesis .
      qed
    qed
  qed
qed

lemma ConverseString_tx:
  assumes "ConverseString k commandString w = Some (r, w')"
  shows "tx w' = tx w @ [commandString @ [CHR 0x0D, CHR 0x0A]]"
proof -
  from assms obtain start w1 where
    t: "GetTime (SendCommand (commandString @ [CHR 0x0D, CHR 0x0A]) w) = Some (start, w1)"
    and l: "ConverseString_loop k start [] 0 w1 = Some (r, w')"
    by (simp add: ConverseString_def split: option.splits prod.splits)
  have "tx w' = tx w1" using l by (rule ConverseString_loop_tx)
  also have "\<dots> = tx (SendCommand (commandString @ [CHR 0x0D, CHR 0x0A]) w)"
    using t by (rule GetTime_tx)
  finally show ?thesis by (simp add: SendCommand_def)
qed

lemma ConverseMultiple_tx:
  assumes "ConverseMultiple k commandString readLines w = Some (n, rl, w')"
  shows "tx w' = tx w @ [commandString @ [CHR 0x0D, CHR 0x0A]]"
proof -
  from assms obtain response w1 lg where
    c: "ConverseString k commandString w = Some (response, w1)"
    and w': "w' = w1\<lparr>logs := logs w1 @ lg\<rparr>"
    by (auto simp: ConverseMultiple_def split: option.splits prod.splits)
  from ConverseString_tx [OF c] w' show ?thesis by simp
qed

lemma ConverseRbwValue_tx:
  assumes "ConverseRbwValue k to_string_kHz sscanf_i64 True val w = Some (Inr (r, w'))"
  shows "tx w' = tx w @ [''rbw '' @ to_string_kHz val @ [CHR 0x0D, CHR 0x0A],
                          ''rbw'' @ [CHR 0x0D, CHR 0x0A]]"
  using assms
  by (auto simp: ConverseRbwValue_def Let_def split: option.splits prod.splits if_splits
           dest!: ConverseMultiple_tx)

subsection \<open>The lines ConverseMultiple returns\<close>



subsection \<open>The exits of the read loops on a timeout\<close>

lemma timeout_exit_ConverseString:
  assumes "ReadRawData 1 w = Some ([], w1)" and "GetTime w1 = Some (t, w2)"
    and "COMMUNICATION_TIMEOUT k \<le> t - start"
  shows "ConverseString_loop k start result bytesRead w = Some (result, Log ErrTimeout w2)"
  using assms by (subst ConverseString_loop.simps) simp

lemma timeout_exit_ConverseBinary:
  assumes "ReadRawData 1 w = Some ([], w1)" and "GetTime w1 = Some (t, w2)"
    and "COMMUNICATION_TIMEOUT k \<le> t - start" and "inHeader \<or> inFooter"
  shows "ConverseBinary_loop k commandString len start inHeader inFooter result bytesRead
             dataRead data w
           = Some (dataRead, data, Log ErrTimeout w2)"
  using assms by (subst ConverseBinary_loop.simps) auto

subsection \<open>The buffer and the count of ConverseBinary\<close>

lemma ConverseBinary_loop_length:
  "ConverseBinary_loop k c len start inH inF result bytesRead dataRead data w = Some (n, data', w')
     \<Longrightarrow> length data = len \<Longrightarrow> length data' = len"
proof (induction k c len start inH inF result bytesRead dataRead data w
         rule: ConverseBinary_loop.induct)
  case (1 k c len start inH inF result bytesRead dataRead data w)
  show ?case
  proof (cases "inF \<or> inH")
    case True
    with "1.prems" "1.IH"(1-5) show ?thesis
      by (subst (asm) ConverseBinary_loop.simps)
         (auto split: option.splits list.splits if_splits simp: Let_def)
  next
    case False
    with "1.prems"(1) obtain bs w1 where rd: "ReadRawData len w = Some (bs, w1)"
      by (subst (asm) ConverseBinary_loop.simps) (auto split: option.splits)
    from ReadRawData_length [OF rd] "1.prems"(2)
    have len': "length (bs @ drop (length bs) data) = len" by simp
    from False rd len' "1.prems" "1.IH"(6-7) show ?thesis
      by (subst (asm) ConverseBinary_loop.simps)
         (auto split: option.splits list.splits if_splits simp: Let_def)
  qed
qed

lemma ConverseBinary_length:
  "ConverseBinary k c d len w = Some (n, data, w') \<Longrightarrow> length data = len"
  by (auto simp: ConverseBinary_def resize_def split: option.splits
           dest!: ConverseBinary_loop_length)

lemma count_all_or_nothing_Log [simp]:
  "count_all_or_nothing len n (Log ErrTimeout w)"
  "count_all_or_nothing len 0 w"
  "len \<le> n \<Longrightarrow> count_all_or_nothing len n w"
  by (simp_all add: count_all_or_nothing_def Log_def)

lemma ConverseBinary_loop_count:
  "ConverseBinary_loop k c len start inH inF result bytesRead dataRead data w = Some (n, data', w')
     \<Longrightarrow> (inH \<longrightarrow> \<not> inF \<and> dataRead = 0) \<Longrightarrow> (inF \<longrightarrow> len \<le> dataRead)
     \<Longrightarrow> count_all_or_nothing len n w'"
proof (induction k c len start inH inF result bytesRead dataRead data w
         rule: ConverseBinary_loop.induct)
  case (1 k c len start inH inF result bytesRead dataRead data w)
  show ?case
  proof (cases "inF \<or> inH")
    case True
    with "1.prems" "1.IH"(1-5) show ?thesis
      by (subst (asm) ConverseBinary_loop.simps)
         (auto split: option.splits list.splits if_splits simp: Let_def)
  next
    case False
    with "1.prems" "1.IH"(6-7) show ?thesis
      by (subst (asm) ConverseBinary_loop.simps)
         (auto split: option.splits list.splits if_splits simp: Let_def)
  qed
qed

lemma ConverseBinary_count:
  assumes "ConverseBinary k c d len w = Some (n, data, w')"
  shows "n = 0 \<or> len \<le> n \<or> (logs w' \<noteq> [] \<and> last (logs w') = ErrTimeout)"
  using assms
  by (auto simp: ConverseBinary_def count_all_or_nothing_def split: option.splits
           dest!: ConverseBinary_loop_count)

subsection \<open>The lines ConverseSingle reads\<close>

lemma getline_first:
  assumes "CHR 0x0A \<notin> set line1"
  shows "getline (stringstream (line1 @ CHR 0x0A # rest)) str
           = (\<lparr>unread = rest, eofbit = False, failbit = False\<rparr>, line1)"
proof -
  let ?ss = "stringstream (line1 @ CHR 0x0A # rest)"
  have good: "\<not> (eofbit ?ss \<or> failbit ?ss)" by (simp add: stringstream_def)
  have d: "dropWhile (\<lambda>c. c \<noteq> CHR 0x0A) (unread ?ss) = CHR 0x0A # rest"
    using assms by (auto simp: stringstream_def dropWhile_append3)
  have t: "takeWhile (\<lambda>c. c \<noteq> CHR 0x0A) (unread ?ss) = line1"
    using assms by (auto simp: stringstream_def takeWhile_tail)
  show ?thesis
    unfolding getline_delim [OF good d] t by (simp add: stringstream_def)
qed

lemma getline_rest:
  "snd (getline \<lparr>unread = rest, eofbit = False, failbit = False\<rparr> str)
     = takeWhile (\<lambda>c. c \<noteq> CHR 0x0A) rest"
proof -
  let ?ss = "\<lparr>unread = rest, eofbit = False, failbit = False\<rparr>"
  have good: "\<not> (eofbit ?ss \<or> failbit ?ss)" by simp
  show ?thesis
  proof (cases "dropWhile (\<lambda>c. c \<noteq> CHR 0x0A) (unread ?ss)")
    case Nil
    show ?thesis unfolding getline_eof [OF good Nil] by simp
  next
    case (Cons d r)
    show ?thesis unfolding getline_delim [OF good Cons] by simp
  qed
qed

lemma getline_no_line_feed:
  assumes "CHR 0x0A \<notin> set response"
  shows "getline (stringstream response) str
           = (\<lparr>unread = [], eofbit = True, failbit = (response = [])\<rparr>, response)"
proof -
  let ?ss = "stringstream response"
  have good: "\<not> (eofbit ?ss \<or> failbit ?ss)" by (simp add: stringstream_def)
  have d: "dropWhile (\<lambda>c. c \<noteq> CHR 0x0A) (unread ?ss) = []"
    using assms by (auto simp: stringstream_def)
  have t: "takeWhile (\<lambda>c. c \<noteq> CHR 0x0A) (unread ?ss) = response"
    using assms by (auto simp: stringstream_def)
  show ?thesis
    unfolding getline_eof [OF good d] t by (simp add: stringstream_def)
qed

lemma RemoveCR_idem: "RemoveCR (RemoveCR s) = RemoveCR s"
proof -
  have "dropWhile P (dropWhile P xs) = dropWhile P xs" for P and xs :: "char list"
    by (induction xs) auto
  then show ?thesis by (simp add: RemoveCR_def)
qed

text \<open>
  A response with a line feed: \<^verbatim>\<open>ConverseSingle\<close> returns its second line, stripped, whether
  or not the first line echoes the command; a mismatch only adds a warning.
\<close>

lemma ConverseSingle_second_line:
  assumes "ConverseString k commandString w = Some (line1 @ CHR 0x0A # rest, w1)"
    and "CHR 0x0A \<notin> set line1"
  shows "ConverseSingle k commandString w
           = Some (RemoveCR (takeWhile (\<lambda>c. c \<noteq> CHR 0x0A) rest),
                   if RemoveCR line1 \<noteq> commandString
                   then Log (WarnUnexpectedResponse (RemoveCR line1) commandString) w1 else w1)"
proof -
  obtain ss2 line2 where g2: "getline \<lparr>unread = rest, eofbit = False, failbit = False\<rparr>
      (RemoveCR line1) = (ss2, line2)"
    by (cases "getline \<lparr>unread = rest, eofbit = False, failbit = False\<rparr> (RemoveCR line1)")
  with getline_rest [of rest "RemoveCR line1"]
  have l2: "line2 = takeWhile (\<lambda>c. c \<noteq> CHR 0x0A) rest" by simp
  show ?thesis
    by (simp add: ConverseSingle_def assms(1) getline_first [OF assms(2)] g2 l2 Let_def)
qed

text \<open>
  A response without a line feed: the second \<open>getline\<close> finds the stream at its end and
  leaves \<^verbatim>\<open>result\<close> as it is, so the first line is returned.
\<close>

lemma ConverseSingle_no_line_feed:
  assumes "ConverseString k commandString w = Some (response, w1)"
    and "CHR 0x0A \<notin> set response"
  shows "ConverseSingle k commandString w
           = Some (RemoveCR response,
                   if RemoveCR response \<noteq> commandString
                   then Log (WarnUnexpectedResponse (RemoveCR response) commandString) w1
                   else w1)"
proof -
  have "getline \<lparr>unread = [], eofbit = True, failbit = (response = [])\<rparr> (RemoveCR response)
      = (\<lparr>unread = [], eofbit = True, failbit = True\<rparr>, RemoveCR response)"
    by (simp add: getline_not_good)
  then show ?thesis
    by (simp add: ConverseSingle_def assms(1) getline_no_line_feed [OF assms(2)] RemoveCR_idem
          Let_def)
qed

section \<open>TinySA: properties of the acquisition\<close>

lemma sample_loop_eq:
  assumes "3 * nsamples + 2 \<le> length data" and "j \<le> nsamples" and "length samples = nsamples"
  shows "sample_loop data offset nsamples j samples lg
           = Some (take j samples @ decoded_samples data offset j nsamples,
                   lg @ point_warnings data j nsamples)"
  using assms(2,3)
proof (induction "nsamples - j" arbitrary: j samples lg)
  case 0
  then have "j = nsamples" by simp
  with 0 show ?case
    by (subst sample_loop.simps) (simp add: decoded_samples_def point_warnings_def)
next
  case (Suc n)
  then have lt: "j < nsamples" by simp
  with assms(1) have b: "byte_at data (1 + 3 * j) = Some (data ! (1 + 3 * j))"
      "byte_at data (2 + 3 * j) = Some (data ! (2 + 3 * j))"
      "byte_at data (3 + 3 * j) = Some (data ! (3 + 3 * j))"
    by (simp_all add: byte_at_def)
  have upt: "[j..<nsamples] = j # [Suc j..<nsamples]"
    using lt by (simp add: upt_conv_Cons)
  have tk: "take (Suc j) (samples[j := v]) = take j samples @ [v]" for v
    using lt Suc.prems(2) by (simp add: take_Suc_conv_app_nth)
  from Suc.hyps(2) have n: "n = nsamples - Suc j" by simp
  have IH: "sample_loop data offset nsamples (Suc j) (samples[j := v]) lg'
           = Some (take (Suc j) (samples[j := v]) @ decoded_samples data offset (Suc j) nsamples,
                   lg' @ point_warnings data (Suc j) nsamples)" for v lg'
    using Suc.hyps(1) [OF n, of "samples[j := v]" lg'] lt Suc.prems(2) by simp
  show ?case
    using lt b
    by (subst sample_loop.simps)
       (simp add: IH tk decoded_samples_def point_warnings_def upt)
qed

lemma payload_length_eq: "3 * n + 2 < size_t_max \<Longrightarrow> payload_length n = 3 * n + 2"
  by (simp add: payload_length_def mult.commute)

lemma size_t_pred_eq: "0 < n \<Longrightarrow> n < size_t_max \<Longrightarrow> size_t_pred n = n - 1"
proof -
  assume "0 < n" and "n < size_t_max"
  then have "n + size_t_max - 1 = (n - 1) + size_t_max" and "n - 1 < size_t_max" by simp_all
  then show ?thesis by (simp only: size_t_pred_def mod_add_self2 mod_less)
qed

lemma stepsize_eq:
  assumes "0 \<le> d" and "d < 2 ^ 63"
  shows "to_int64 (to_uint64 d div n) = d div int n"
proof -
  have u: "to_uint64 d = nat d"
    using assms by (simp add: to_uint64_def)
  have "nat d div n \<le> nat d" by (rule div_le_dividend)
  also have "nat d < 2 ^ 63" using assms by (simp add: nat_less_iff)
  finally have lt: "nat d div n < 2 ^ 63" .
  then have "nat d div n < 2 ^ 64" by simp
  then have m: "(nat d div n) mod 2 ^ 64 = nat d div n" by simp
  have "int (nat d div n) = d div int n"
    using assms(1) by (simp add: zdiv_int)
  then show ?thesis
    using lt by (simp add: to_int64_def u m)
qed

text \<open>
  A successful acquisition, in full: the payload was read whole, the sample depth is positive
  and \<open>3N+2\<close> fits \<^verbatim>\<open>size_t\<close>.
\<close>

lemma AcquireData_success:
  assumes N: "0 < m_sampleDepth s" "3 * m_sampleDepth s + 2 < size_t_max"
    and conv: "ConverseBinary k (scanraw_command s) [] (payload_length (m_sampleDepth s)) w
                 = Some (payload_length (m_sampleDepth s), data, w1)"
    and time: "GetTime w1 = Some (tstart, w2)"
  shows "AcquireData k round_double FindPeaks s w =
     Some (Inr (True,
       s\<lparr>m_peaks := FindPeaks (acquired_waveform k round_double s tstart data) 10 500000,
         m_pendingWaveforms := m_pendingWaveforms s
            @ [if channel_enabled s then [(0, acquired_waveform k round_double s tstart data)] else []],
         m_triggerArmed := (if m_triggerOneShot s then False else m_triggerArmed s)\<rparr>,
       w2\<lparr>logs := logs w2 @ bracket_warnings data (m_sampleDepth s)
                      @ point_warnings data 0 (m_sampleDepth s)\<rparr>))"
proof -
  let ?n = "m_sampleDepth s"
  have pl: "payload_length ?n = 3 * ?n + 2"
    using N(2) by (rule payload_length_eq)
  have len: "length data = 3 * ?n + 2"
    using ConverseBinary_length [OF conv] pl by simp
  have pred: "size_t_pred (payload_length ?n) = 3 * ?n + 1"
    using size_t_pred_eq [of "3 * ?n + 2"] N(2) pl by simp
  have b0: "byte_at data 0 = Some (data ! 0)"
    and b1: "byte_at data (size_t_pred (payload_length ?n)) = Some (data ! (3 * ?n + 1))"
    using len by (simp_all add: byte_at_def pred)
  have loop: "sample_loop data (m_modelDbmOffset s) ?n 0 (replicate ?n 0) lg
      = Some (decoded_samples data (m_modelDbmOffset s) 0 ?n, lg @ point_warnings data 0 ?n)" for lg
    using sample_loop_eq [of ?n data 0 "replicate ?n 0" "m_modelDbmOffset s" lg] len by simp
  have ne: "?n \<noteq> 0" using N(1) by simp
  show ?thesis
    by (simp add: AcquireData_def Let_def conv time b0 b1 loop ne
          acquired_waveform_def bracket_warnings_def)
qed

section \<open>The example runs, evaluated\<close>

lemmas world_ops = SendCommand_def GetTime_def ReadRawData_def Log_def ends_with_def starts_with_def

lemma scanraw2: "scanraw_command (example_tinysa 2) = ''scanraw 100 201 2''"
  by (simp add: scanraw_command_def example_tinysa_def to_string_int_def to_string_nat.simps
        digit_char_def)

lemma payload2: "payload_length (m_sampleDepth (example_tinysa 2)) = 8"
  by (simp add: payload_length_def example_tinysa_def size_t_max_def)

lemma full_read:
  "ConverseBinary example_h (scanraw_command (example_tinysa 2)) []
      (payload_length (m_sampleDepth (example_tinysa 2))) full_read_world
     = Some (payload_length (m_sampleDepth (example_tinysa 2)), odd_payload,
         \<lparr>rx = [], clock = [13 / 8], tx = [''scanraw 100 201 2'' @ [CHR 0x0D, CHR 0x0A]],
          logs = []\<rparr>)"
  unfolding scanraw2 payload2
  by (simp add: ConverseBinary_def full_read_world_def one_by_one_def example_h_def world_ops
        resize_def odd_payload_def ConverseBinary_loop.simps)

lemma example_time:
  "GetTime \<lparr>rx = [], clock = [13 / 8], tx = [''scanraw 100 201 2'' @ [CHR 0x0D, CHR 0x0A]],
          logs = []\<rparr> = Some (13 / 8, \<lparr>rx = [], clock = [], tx = [''scanraw 100 201 2'' @ [CHR 0x0D, CHR 0x0A]],
          logs = []\<rparr>)"
  by (simp add: GetTime_def)

lemma ultra_fields:
  "m_sampleDepth example_ultra = 2"
  "scanraw_command example_ultra
     = scanraw_command (example_tinysa 2)"
  "m_pendingWaveforms example_ultra = []"
  "channel_enabled example_ultra"
  "m_modelDbmOffset example_ultra = 174"
  by (simp_all add: example_ultra_def switch_TINY_SA_ULTRA_def example_tinysa_def scanraw_command_def)

lemma full_read_ultra:
  "ConverseBinary example_h (scanraw_command example_ultra) []
      (payload_length (m_sampleDepth example_ultra))
      full_read_world
     = Some (payload_length (m_sampleDepth example_ultra),
         odd_payload,
         \<lparr>rx = [], clock = [13 / 8], tx = [''scanraw 100 201 2'' @ [CHR 0x0D, CHR 0x0A]],
          logs = []\<rparr>)"
  using full_read by (simp add: ultra_fields example_tinysa_def)

lemma scanraw6: "scanraw_command (example_tinysa 6) = ''scanraw 100 201 6''"
  by (simp add: scanraw_command_def example_tinysa_def to_string_int_def to_string_nat.simps digit_char_def)

lemma short_read: "ConverseBinary example_h ''scanraw 100 201 6'' [] 20 short_read_world =
   Some (10, ''{x12x34x56'' @ replicate 10 (CHR 0x00),
         \<lparr>rx = [], clock = [], tx = [''scanraw 100 201 6'' @ [CHR 0x0D, CHR 0x0A]], logs = [ErrTimeout]\<rparr>)"
  by (simp add: ConverseBinary_def short_read_world_def one_by_one_def example_h_def world_ops resize_def
     ConverseBinary_loop.simps)

lemma long_footer_read:
  "ConverseBinary example_h (scanraw_command (example_tinysa 2)) []
      (payload_length (m_sampleDepth (example_tinysa 2))) long_footer_world
     = Some (payload_length (m_sampleDepth (example_tinysa 2)), good_payload,
         \<lparr>rx = one_by_one ''efch> '', clock = [13 / 8],
          tx = [''scanraw 100 201 2'' @ [CHR 0x0D, CHR 0x0A]],
          logs = [ErrResponseTooLong 33]\<rparr>)"
  unfolding scanraw2 payload2
  by (simp add: ConverseBinary_def long_footer_world_def one_by_one_def example_h_def world_ops
        resize_def good_payload_def ConverseBinary_loop.simps)

lemma long_footer_time:
  "GetTime \<lparr>rx = one_by_one ''efch> '', clock = [13 / 8],
          tx = [''scanraw 100 201 2'' @ [CHR 0x0D, CHR 0x0A]],
          logs = [ErrResponseTooLong 33]\<rparr>
   = Some (13 / 8, \<lparr>rx = one_by_one ''efch> '', clock = [],
          tx = [''scanraw 100 201 2'' @ [CHR 0x0D, CHR 0x0A]],
          logs = [ErrResponseTooLong 33]\<rparr>)"
  by (simp add: GetTime_def)

lemma echo_then_silence_response:
  "ConverseString example_h ''version'' echo_then_silence
     = Some (''version'',
         \<lparr>rx = [], clock = [], tx = [''version'' @ [CHR 0x0D, CHR 0x0A]],
          logs = [ErrTimeout]\<rparr>)"
  by (simp add: ConverseString_def echo_then_silence_def one_by_one_def example_h_def world_ops
        ConverseString_loop.simps)













section \<open>Results\<close>

text \<open>
  C1.  An acquisition of sample depth \<open>N\<close> asks \<^verbatim>\<open>ConverseBinary\<close> for
  \<open>payload_length N\<close> bytes, which is \<open>3N+2\<close> in \<^verbatim>\<open>size_t\<close> arithmetic.  Whenever
  \<^verbatim>\<open>ConverseBinary\<close> returns a count different from that, \<^verbatim>\<open>AcquireData\<close> returns false,
  logs the error and leaves the driver as it was: no waveform and no SequenceSet is added to
  the pending queue.  \<^verbatim>\<open>AcquireData\<close> returns true only when the count is the requested one.
\<close>

theorem C1_short_read_fails:
  assumes "ConverseBinary k (scanraw_command s) [] (payload_length (m_sampleDepth s)) w
             = Some (read, data, w1)"
  shows "(read \<noteq> payload_length (m_sampleDepth s) \<longrightarrow>
            AcquireData k round_double FindPeaks s w
              = Some (Inr (False, s,
                  Log (ErrInvalidByteCount read (payload_length (m_sampleDepth s))) w1)))
         \<and> (\<forall>s' w'. AcquireData k round_double FindPeaks s w = Some (Inr (True, s', w')) \<longrightarrow>
              read = payload_length (m_sampleDepth s))
         \<and> (3 * m_sampleDepth s + 2 < size_t_max \<longrightarrow>
              payload_length (m_sampleDepth s) = 3 * m_sampleDepth s + 2)"
  using assms by (auto simp: AcquireData_def Let_def payload_length_eq)

text \<open>
  The scenario of the specification: 10 of 20 requested bytes arrive before the timeout, and
  the acquisition fails.  On \<open>full_read_world\<close> the whole payload arrives and the
  acquisition returns true.
\<close>

theorem C1_short_read_fails_witness:
  "ConverseBinary example_h (scanraw_command (example_tinysa 6)) []
      (payload_length (m_sampleDepth (example_tinysa 6))) short_read_world
     = Some (10, ''{x12x34x56'' @ replicate 10 (CHR 0x00),
         \<lparr>rx = [], clock = [], tx = [''scanraw 100 201 6'' @ [CHR 0x0D, CHR 0x0A]],
          logs = [ErrTimeout]\<rparr>)
   \<and> 10 \<noteq> payload_length (m_sampleDepth (example_tinysa 6))
   \<and> 3 * m_sampleDepth (example_tinysa 6) + 2 < size_t_max
   \<and> payload_length (m_sampleDepth (example_tinysa 6)) = 20
   \<and> AcquireData example_h no_rounding no_peaks (example_tinysa 6) short_read_world
     = Some (Inr (False, example_tinysa 6,
         \<lparr>rx = [], clock = [], tx = [''scanraw 100 201 6'' @ [CHR 0x0D, CHR 0x0A]],
          logs = [ErrTimeout, ErrInvalidByteCount 10 20]\<rparr>))
   \<and> m_pendingWaveforms (example_tinysa 6) = []
   \<and> (\<exists>s' w'. AcquireData example_h no_rounding no_peaks (example_tinysa 2) full_read_world
                  = Some (Inr (True, s', w')))
   \<and> payload_length (m_sampleDepth (example_tinysa 2)) = 8"
proof -
  have d: "payload_length (m_sampleDepth (example_tinysa 6)) = 20"
    and m6: "3 * m_sampleDepth (example_tinysa 6) + 2 < size_t_max"
    by (simp_all add: example_tinysa_def size_t_max_def payload_length_def)
  have c: "ConverseBinary example_h (scanraw_command (example_tinysa 6)) []
      (payload_length (m_sampleDepth (example_tinysa 6))) short_read_world
     = Some (10, ''{x12x34x56'' @ replicate 10 (CHR 0x00),
         \<lparr>rx = [], clock = [], tx = [''scanraw 100 201 6'' @ [CHR 0x0D, CHR 0x0A]],
          logs = [ErrTimeout]\<rparr>)"
    unfolding d scanraw6 by (rule short_read)
  have n: "0 < m_sampleDepth (example_tinysa 2)"
    and m: "3 * m_sampleDepth (example_tinysa 2) + 2 < size_t_max"
    by (simp_all add: example_tinysa_def size_t_max_def)
  have t: "\<exists>s' w'. AcquireData example_h no_rounding no_peaks (example_tinysa 2) full_read_world
                  = Some (Inr (True, s', w'))"
    using AcquireData_success [OF n m full_read example_time,
        where FindPeaks = no_peaks and round_double = no_rounding]
    by blast
  from C1_short_read_fails [OF c, where FindPeaks = no_peaks and round_double = no_rounding]
    C1_short_read_fails [OF full_read, where FindPeaks = no_peaks and round_double = no_rounding]
    d c m6 t
  show ?thesis
    by (simp add: Log_def example_tinysa_def payload2)
qed

text \<open>
  C2.  In a successful acquisition, sample \<open>j\<close> of the waveform is decoded from the bytes
  \<open>data1 = data[2+3j]\<close> (low) and \<open>data2 = data[3+3j]\<close> (high) of the payload as
  \<open>((data2 << 8) + data1) / 32 - offset\<close>, which is \<open>(256 * data2 + data1) / 32 - offset\<close>,
  with the \<^verbatim>\<open>m_modelDbmOffset\<close> of the driver for \<open>offset\<close>; the constructor's switch sets
  that offset to 128 for \<^verbatim>\<open>TINY_SA\<close> and to 174 for \<^verbatim>\<open>TINY_SA_ULTRA\<close>.  The value is a
  function of the two bytes and the offset alone.
\<close>

theorem C2_decoded_value:
  assumes "0 < m_sampleDepth s" and "3 * m_sampleDepth s + 2 < size_t_max"
    and "ConverseBinary k (scanraw_command s) [] (payload_length (m_sampleDepth s)) w
           = Some (payload_length (m_sampleDepth s), data, w1)"
    and "GetTime w1 = Some (tstart, w2)"
  shows "(\<exists>s' w' cap.
           AcquireData k round_double FindPeaks s w = Some (Inr (True, s', w'))
         \<and> m_pendingWaveforms s'
             = m_pendingWaveforms s @ [if channel_enabled s then [(0, cap)] else []]
         \<and> m_peaks s' = FindPeaks cap 10 500000
         \<and> length (m_samples cap) = m_sampleDepth s
         \<and> (\<forall>j < m_sampleDepth s.
               m_samples cap ! j
                 = real_of_int (push_bit 8 (of_char (data ! (3 + 3 * j)))
                                + of_char (data ! (2 + 3 * j))) / 32
                   - real_of_int (m_modelDbmOffset s)
             \<and> m_samples cap ! j
                 = (256 * real (of_char (data ! (3 + 3 * j)))
                    + real (of_char (data ! (2 + 3 * j)))) / 32
                   - real_of_int (m_modelDbmOffset s)))
       \<and> m_modelDbmOffset (model_switch TINY_SA l) = 128
       \<and> m_modelDbmOffset (model_switch TINY_SA_ULTRA l) = 174"
proof -
  let ?cap = "acquired_waveform k round_double s tstart data"
  obtain s' w' where run: "AcquireData k round_double FindPeaks s w = Some (Inr (True, s', w'))"
    and s': "s' = s\<lparr>m_peaks := FindPeaks ?cap 10 500000,
         m_pendingWaveforms := m_pendingWaveforms s
            @ [if channel_enabled s then [(0, ?cap)] else []],
         m_triggerArmed := (if m_triggerOneShot s then False else m_triggerArmed s)\<rparr>"
    using AcquireData_success [OF assms(1-4), where FindPeaks = FindPeaks and round_double = round_double] by simp
  have v: "sample_value lo hi off
      = (256 * real (of_char hi) + real (of_char lo)) / 32 - real_of_int off" for lo hi off
    by (simp add: sample_value_def push_bit_eq_mult of_nat_of_char of_int_of_char)
  have "\<exists>s' w' cap.
           AcquireData k round_double FindPeaks s w = Some (Inr (True, s', w'))
         \<and> m_pendingWaveforms s'
             = m_pendingWaveforms s @ [if channel_enabled s then [(0, cap)] else []]
         \<and> m_peaks s' = FindPeaks cap 10 500000
         \<and> length (m_samples cap) = m_sampleDepth s
         \<and> (\<forall>j < m_sampleDepth s.
               m_samples cap ! j
                 = real_of_int (push_bit 8 (of_char (data ! (3 + 3 * j)))
                                + of_char (data ! (2 + 3 * j))) / 32
                   - real_of_int (m_modelDbmOffset s)
             \<and> m_samples cap ! j
                 = (256 * real (of_char (data ! (3 + 3 * j)))
                    + real (of_char (data ! (2 + 3 * j)))) / 32
                   - real_of_int (m_modelDbmOffset s))"
  proof (intro exI conjI)
    show "AcquireData k round_double FindPeaks s w = Some (Inr (True, s', w'))" by (rule run)
    show "m_pendingWaveforms s'
             = m_pendingWaveforms s @ [if channel_enabled s then [(0, ?cap)] else []]"
      by (simp add: s')
    show "m_peaks s' = FindPeaks ?cap 10 500000" by (simp add: s')
    show "length (m_samples ?cap) = m_sampleDepth s"
      by (simp add: acquired_waveform_def decoded_samples_def)
    show "\<forall>j < m_sampleDepth s.
               m_samples ?cap ! j
                 = real_of_int (push_bit 8 (of_char (data ! (3 + 3 * j)))
                                + of_char (data ! (2 + 3 * j))) / 32
                   - real_of_int (m_modelDbmOffset s)
             \<and> m_samples ?cap ! j
                 = (256 * real (of_char (data ! (3 + 3 * j)))
                    + real (of_char (data ! (2 + 3 * j)))) / 32
                   - real_of_int (m_modelDbmOffset s)"
      using v by (simp add: acquired_waveform_def decoded_samples_def sample_value_def)
  qed
  moreover have "m_modelDbmOffset (model_switch TINY_SA l) = 128"
    "m_modelDbmOffset (model_switch TINY_SA_ULTRA l) = 174"
    by (simp_all add: switch_TINY_SA_def switch_default_def TINY_SA_assignments_def
          switch_TINY_SA_ULTRA_def)
  ultimately show ?thesis by blast
qed

text \<open>
The same payload decoded with either offset.
\<close>

theorem C2_decoded_value_witness:
  "0 < m_sampleDepth (example_tinysa 2)
   \<and> 3 * m_sampleDepth (example_tinysa 2) + 2 < size_t_max
   \<and> m_modelDbmOffset (example_tinysa 2) = 128
   \<and> m_modelDbmOffset example_ultra = 174
   \<and> (\<exists>s' w' cap.
         AcquireData example_h no_rounding no_peaks (example_tinysa 2) full_read_world
           = Some (Inr (True, s', w'))
       \<and> m_pendingWaveforms s' = [[(0, cap)]]
       \<and> length (m_samples cap) = 2
       \<and> m_samples cap ! 0 = 1 \<and> m_samples cap ! 1 = 61439 / 32)
   \<and> (\<exists>s' w' cap.
         AcquireData example_h no_rounding no_peaks example_ultra
             full_read_world
           = Some (Inr (True, s', w'))
       \<and> m_pendingWaveforms s' = [[(0, cap)]]
       \<and> length (m_samples cap) = 2
       \<and> m_samples cap ! 0 = - 45 \<and> m_samples cap ! 1 = 59967 / 32)"
proof -
  have n: "0 < m_sampleDepth (example_tinysa 2)"
    and m: "3 * m_sampleDepth (example_tinysa 2) + 2 < size_t_max"
    and n': "0 < m_sampleDepth example_ultra"
    and m': "3 * m_sampleDepth example_ultra + 2 < size_t_max"
    by (simp_all add: ultra_fields) (simp_all add: example_tinysa_def size_t_max_def)
  from C2_decoded_value [OF n m full_read example_time, where FindPeaks = no_peaks and round_double = no_rounding]
  obtain s' w' cap where
    "AcquireData example_h no_rounding no_peaks (example_tinysa 2) full_read_world
       = Some (Inr (True, s', w'))"
    "m_pendingWaveforms s' = m_pendingWaveforms (example_tinysa 2)
       @ [if channel_enabled (example_tinysa 2) then [(0, cap)] else []]"
    "length (m_samples cap) = m_sampleDepth (example_tinysa 2)"
    "\<forall>j < m_sampleDepth (example_tinysa 2). m_samples cap ! j
       = (256 * real (of_char (odd_payload ! (3 + 3 * j)))
           + real (of_char (odd_payload ! (2 + 3 * j)))) / 32
         - real_of_int (m_modelDbmOffset (example_tinysa 2))"
    by blast
  then have "AcquireData example_h no_rounding no_peaks (example_tinysa 2) full_read_world
           = Some (Inr (True, s', w'))
       \<and> m_pendingWaveforms s' = [[(0, cap)]]
       \<and> length (m_samples cap) = 2
       \<and> m_samples cap ! 0 = 1 \<and> m_samples cap ! 1 = 61439 / 32"
    by (simp add: example_tinysa_def odd_payload_def)
  then have a: "\<exists>s' w' cap.
         AcquireData example_h no_rounding no_peaks (example_tinysa 2) full_read_world
           = Some (Inr (True, s', w'))
       \<and> m_pendingWaveforms s' = [[(0, cap)]]
       \<and> length (m_samples cap) = 2
       \<and> m_samples cap ! 0 = 1 \<and> m_samples cap ! 1 = 61439 / 32"
    by blast
  from C2_decoded_value [OF n' m' full_read_ultra example_time, where FindPeaks = no_peaks and round_double = no_rounding]
  obtain s' w' cap where
    "AcquireData example_h no_rounding no_peaks example_ultra
       full_read_world = Some (Inr (True, s', w'))"
    "m_pendingWaveforms s' = m_pendingWaveforms example_ultra
       @ [if channel_enabled example_ultra
          then [(0, cap)] else []]"
    "length (m_samples cap) = m_sampleDepth example_ultra"
    "\<forall>j < m_sampleDepth example_ultra. m_samples cap ! j
       = (256 * real (of_char (odd_payload ! (3 + 3 * j)))
           + real (of_char (odd_payload ! (2 + 3 * j)))) / 32
         - real_of_int (m_modelDbmOffset example_ultra)"
    by blast
  then have "AcquireData example_h no_rounding no_peaks example_ultra
             full_read_world
           = Some (Inr (True, s', w'))
       \<and> m_pendingWaveforms s' = [[(0, cap)]]
       \<and> length (m_samples cap) = 2
       \<and> m_samples cap ! 0 = - 45 \<and> m_samples cap ! 1 = 59967 / 32"
    by (simp add: ultra_fields odd_payload_def)
  then have b: "\<exists>s' w' cap.
         AcquireData example_h no_rounding no_peaks example_ultra
             full_read_world
           = Some (Inr (True, s', w'))
       \<and> m_pendingWaveforms s' = [[(0, cap)]]
       \<and> length (m_samples cap) = 2
       \<and> m_samples cap ! 0 = - 45 \<and> m_samples cap ! 1 = 59967 / 32"
    by blast
  from n m a b show ?thesis
    by (simp add: ultra_fields) (simp add: example_tinysa_def)
qed

text \<open>
  C3 (as the specification states it, refuted).  \<^verbatim>\<open>Release\<close> on a fresh channel is a no-op;
  an \<^verbatim>\<open>AddRef\<close> after it turns the channel on, although one \<^verbatim>\<open>AddRef\<close> does not exceed one
  \<^verbatim>\<open>Release\<close>.
\<close>

theorem C3_release_first:
  "\<not> (IsEnabled (do_calls [CallRelease, CallAddRef] new_channel)
        = (count_list [CallRelease, CallAddRef] CallRelease
            < count_list [CallRelease, CallAddRef] CallAddRef))"
  by (simp add: IsEnabled_def new_channel_def AddRef_def Release_def Enable_def)

text \<open>
  C3 (amended).  After any sequence of \<^verbatim>\<open>AddRef\<close>/\<^verbatim>\<open>Release\<close> calls on a fresh channel the
  channel is enabled iff its count is positive; \<^verbatim>\<open>Release\<close> at a count of zero changes
  nothing; and when no \<^verbatim>\<open>Release\<close> of the sequence arrives at a count of zero, the count is
  the number of \<^verbatim>\<open>AddRef\<close> calls minus the number of \<^verbatim>\<open>Release\<close> calls and the channel is
  enabled iff the \<^verbatim>\<open>AddRef\<close> calls outnumber the \<^verbatim>\<open>Release\<close> calls.
\<close>

theorem C3_refcount:
  "IsEnabled (do_calls xs new_channel) = (0 < m_refcount (do_calls xs new_channel))
   \<and> (m_refcount c = 0 \<longrightarrow> Release c = c)
   \<and> (never_below_zero 0 xs \<longrightarrow>
        m_refcount (do_calls xs new_channel) + count_list xs CallRelease
          = count_list xs CallAddRef
        \<and> IsEnabled (do_calls xs new_channel)
          = (count_list xs CallRelease < count_list xs CallAddRef))"
proof -
  have inv: "enabled (do_calls xs new_channel) = (0 < m_refcount (do_calls xs new_channel))"
    by (rule do_calls_enabled_iff) (simp add: new_channel_def)
  have noop: "m_refcount c = 0 \<longrightarrow> Release c = c"
    by (simp add: Release_def)
  have bal: "m_refcount (do_calls xs new_channel) + count_list xs CallRelease
          = count_list xs CallAddRef" if "never_below_zero 0 xs"
    using do_calls_count [of new_channel xs] that by (simp add: new_channel_def)
  have "IsEnabled (do_calls xs new_channel)
          = (count_list xs CallRelease < count_list xs CallAddRef)" if "never_below_zero 0 xs"
    using bal [OF that] inv by (auto simp: IsEnabled_def)
  with inv noop bal show ?thesis by (simp add: IsEnabled_def)
qed

text \<open>
Two \<^verbatim>\<open>AddRef\<close> and one \<^verbatim>\<open>Release\<close>; and \<^verbatim>\<open>Release\<close> on a fresh channel.
\<close>

theorem C3_refcount_witness:
  "never_below_zero 0 [CallAddRef, CallAddRef, CallRelease]
   \<and> m_refcount new_channel = 0
   \<and> Release new_channel = new_channel
   \<and> m_refcount (do_calls [CallAddRef, CallAddRef, CallRelease] new_channel) = 1
   \<and> IsEnabled (do_calls [CallAddRef, CallAddRef, CallRelease] new_channel)"
  using C3_refcount [of "[CallAddRef, CallAddRef, CallRelease]" new_channel]
  by (simp add: new_channel_def)

text \<open>
  C4 (as the specification states it, refuted).  The specification counts ``download
  started'' among four sentinel codes and says that every sentinel code is negative.  In the
  header \<^verbatim>\<open>DOWNLOAD_STARTED = 0\<close>: it is not negative, and it is the same integer as the
  percentage 0.
\<close>

theorem C4_started_not_negative:
  "DOWNLOAD_STARTED \<in> set spec_sentinels
   \<and> \<not> DownloadState_code DOWNLOAD_STARTED < 0
   \<and> DownloadState_code DOWNLOAD_STARTED = download_value_int (Percentage 0)"
  by (simp add: spec_sentinels_def)

text \<open>
  C4 (amended).  Every value the header documents for \<^verbatim>\<open>GetDownloadState()\<close> is either one
  of the three negative codes -3, -2, -1 or lies in 0..100; the negative values are exactly
  the codes of \<^verbatim>\<open>DOWNLOAD_PROGRESS_DISABLED\<close>, \<^verbatim>\<open>DOWNLOAD_NONE\<close> and \<^verbatim>\<open>DOWNLOAD_WAITING\<close>;
  \<^verbatim>\<open>DOWNLOAD_STARTED\<close> is 0 and \<^verbatim>\<open>DOWNLOAD_FINISHED\<close> is 100, both inside the percentage
  range.
\<close>

theorem C4_download_codes:
  "(download_value_valid v \<longrightarrow>
      download_value_int v \<in> {-3, -2, -1} \<or>
      (0 \<le> download_value_int v \<and> download_value_int v \<le> 100))
   \<and> (download_value_valid v \<longrightarrow>
      (download_value_int v < 0) =
      (v \<in> {StateCode DOWNLOAD_PROGRESS_DISABLED, StateCode DOWNLOAD_NONE,
              StateCode DOWNLOAD_WAITING}))
   \<and> DownloadState_code DOWNLOAD_PROGRESS_DISABLED = -3
   \<and> DownloadState_code DOWNLOAD_NONE = -2
   \<and> DownloadState_code DOWNLOAD_WAITING = -1
   \<and> DownloadState_code DOWNLOAD_STARTED = 0
   \<and> DownloadState_code DOWNLOAD_FINISHED = 100"
proof -
  have "download_value_int v \<in> {-3, -2, -1} \<or>
      (0 \<le> download_value_int v \<and> download_value_int v \<le> 100)"
    if "download_value_valid v"
  proof (cases v)
    case (Percentage p)
    with that show ?thesis by simp
  next
    case (StateCode d)
    then show ?thesis by (cases d) simp_all
  qed
  moreover have "(download_value_int v < 0) =
      (v \<in> {StateCode DOWNLOAD_PROGRESS_DISABLED, StateCode DOWNLOAD_NONE,
              StateCode DOWNLOAD_WAITING})"
  proof (cases v)
    case (Percentage p)
    then show ?thesis by simp
  next
    case (StateCode d)
    then show ?thesis by (cases d) simp_all
  qed
  ultimately show ?thesis by simp
qed

text \<open>
A percentage and a negative code.
\<close>

theorem C4_download_codes_witness:
  "download_value_valid (Percentage 42)
   \<and> 0 \<le> download_value_int (Percentage 42) \<and> download_value_int (Percentage 42) \<le> 100
   \<and> \<not> download_value_int (Percentage 42) < 0
   \<and> download_value_valid (StateCode DOWNLOAD_WAITING)
   \<and> download_value_int (StateCode DOWNLOAD_WAITING) < 0"
  using C4_download_codes [of "Percentage 42"] C4_download_codes [of "StateCode DOWNLOAD_WAITING"]
  by simp

text \<open>
  C5 (the code departs from the claim).  The claim: for every command and every response,
  \<^verbatim>\<open>ConverseSingle\<close> returns the second response line with trailing carriage returns
  stripped, also when the first line does not echo the command.  For a response that holds a
  line feed this is lemma \<open>ConverseSingle_second_line\<close>.  For a response without one it
  fails (lemma \<open>ConverseSingle_no_line_feed\<close>): here the device sends the echo
  \<^verbatim>\<open>version\<close> without a line end and falls silent, and \<^verbatim>\<open>ConverseSingle\<close> returns the echo
  itself as the result.  \<^verbatim>\<open>ConverseSingle\<close> does not test the stream after its second
  \<^verbatim>\<open>getline\<close>; \<^verbatim>\<open>ConverseMultiple\<close> tests every one.
\<close>

theorem C5_echo_returned_as_result:
  "ConverseSingle example_h ''version'' echo_then_silence
     = Some (''version'',
         \<lparr>rx = [], clock = [], tx = [''version'' @ [CHR 0x0D, CHR 0x0A]],
          logs = [ErrTimeout]\<rparr>)"
  by (simp add: ConverseSingle_def echo_then_silence_response stringstream_def getline_def
        RemoveCR_def Let_def)

text \<open>
  C6 (as the specification states it, refuted).  The claim says that a response which
  exceeds the byte budget makes the call return a failure result, not a success.  Here the
  footer exceeds the budget of \<open>example_h\<close> (byte 33 arrives): \<^verbatim>\<open>ConverseBinary\<close> logs the
  error and returns 8, the requested length, as a successful exchange does, and
  \<^verbatim>\<open>AcquireData\<close> returns true and publishes the waveform.
\<close>

theorem C6_footer_overflow_is_success:
  "ConverseBinary example_h ''scanraw 100 201 2'' [] 8 long_footer_world
     = Some (8, good_payload,
         \<lparr>rx = one_by_one ''efch> '', clock = [13 / 8],
          tx = [''scanraw 100 201 2'' @ [CHR 0x0D, CHR 0x0A]],
          logs = [ErrResponseTooLong 33]\<rparr>)
   \<and> AcquireData example_h no_rounding no_peaks (example_tinysa 2) long_footer_world
     = Some (Inr (True,
         (example_tinysa 2)
           \<lparr>m_pendingWaveforms :=
              [[(0, \<lparr>m_timescale = 50, m_triggerPhase = 100, m_startTimestamp = 1,
                     m_startFemtoseconds = 625000000000000,
                     m_samples = [1, 61439 / 32]\<rparr>)]],
            m_triggerArmed := False\<rparr>,
         \<lparr>rx = one_by_one ''efch> '', clock = [],
          tx = [''scanraw 100 201 2'' @ [CHR 0x0D, CHR 0x0A]],
          logs = [ErrResponseTooLong 33]\<rparr>))"
proof -
  have n: "0 < m_sampleDepth (example_tinysa 2)"
    and m: "3 * m_sampleDepth (example_tinysa 2) + 2 < size_t_max"
    by (simp_all add: example_tinysa_def size_t_max_def)
  have "AcquireData example_h no_rounding no_peaks (example_tinysa 2) long_footer_world
     = Some (Inr (True,
         (example_tinysa 2)
           \<lparr>m_pendingWaveforms :=
              [[(0, \<lparr>m_timescale = 50, m_triggerPhase = 100, m_startTimestamp = 1,
                     m_startFemtoseconds = 625000000000000,
                     m_samples = [1, 61439 / 32]\<rparr>)]],
            m_triggerArmed := False\<rparr>,
         \<lparr>rx = one_by_one ''efch> '', clock = [],
          tx = [''scanraw 100 201 2'' @ [CHR 0x0D, CHR 0x0A]],
          logs = [ErrResponseTooLong 33]\<rparr>))"
    unfolding AcquireData_success [OF n m long_footer_read long_footer_time, where FindPeaks = no_peaks and round_double = no_rounding]
    by (simp add: example_tinysa_def example_h_def acquired_waveform_def decoded_samples_def
          good_payload_def sample_value_def bracket_warnings_def point_warnings_def
          upt_conv_Cons to_int64_def to_uint64_def no_peaks_def double_to_int64_def
          no_rounding_def)
  with long_footer_read show ?thesis
    by (simp add: scanraw2 payload2)
qed

text \<open>
  C6 (amended).  In every conversation, when one more byte arrives in the header or footer
  phase (or anywhere in \<^verbatim>\<open>ConverseString\<close>) after \<^verbatim>\<open>bytesRead\<close> has reached
  \<^verbatim>\<open>MAX_RESPONSE_SIZE\<close>, reading stops at that byte and the error is logged, as on a
  timeout.  Both exits return what the call has accumulated: \<^verbatim>\<open>ConverseString\<close> the text
  read (the byte over the budget included), \<^verbatim>\<open>ConverseBinary\<close> the count of payload bytes
  read.  An exchange of \<^verbatim>\<open>ConverseBinary\<close> that ends on this error returns 0 or at least the
  requested length.
\<close>

theorem C6_budget_exceeded:
  "(ReadRawData 1 w = Some ([b], w1) \<and> MAX_RESPONSE_SIZE k \<le> bytesRead \<longrightarrow>
      ConverseString_loop k start result bytesRead w
        = Some (result @ [b], Log (ErrResponseTooLong (bytesRead + 1)) w1)
      \<and> (inHeader \<or> inFooter \<longrightarrow>
           ConverseBinary_loop k commandString len start inHeader inFooter result bytesRead
               dataRead data w
             = Some (dataRead, data, Log (ErrResponseTooLong (bytesRead + 1)) w1)))
   \<and> (ReadRawData 1 v = Some ([], v1) \<and> GetTime v1 = Some (t, v2)
        \<and> COMMUNICATION_TIMEOUT k \<le> t - start \<longrightarrow>
      ConverseString_loop k start result bytesRead v = Some (result, Log ErrTimeout v2)
      \<and> (inHeader \<or> inFooter \<longrightarrow>
           ConverseBinary_loop k commandString len start inHeader inFooter result bytesRead
               dataRead data v
             = Some (dataRead, data, Log ErrTimeout v2)))
   \<and> (ConverseBinary k commandString d len w0 = Some (n, data', w')
        \<and> logs w' \<noteq> [] \<and> last (logs w') = ErrResponseTooLong m \<longrightarrow>
      n = 0 \<or> len \<le> n)"
proof -
  have "ConverseString_loop k start result bytesRead w
           = Some (result @ [b], Log (ErrResponseTooLong (bytesRead + 1)) w1)"
    if "ReadRawData 1 w = Some ([b], w1)" and "MAX_RESPONSE_SIZE k \<le> bytesRead"
    using that by (subst ConverseString_loop.simps) (simp add: Let_def)
  moreover have "ConverseBinary_loop k commandString len start inHeader inFooter result bytesRead
                dataRead data w
              = Some (dataRead, data, Log (ErrResponseTooLong (bytesRead + 1)) w1)"
    if "ReadRawData 1 w = Some ([b], w1)" and "MAX_RESPONSE_SIZE k \<le> bytesRead"
      and "inHeader \<or> inFooter"
    using that by (subst ConverseBinary_loop.simps) (auto simp: Let_def)
  moreover have "ConverseString_loop k start result bytesRead v = Some (result, Log ErrTimeout v2)"
    if "ReadRawData 1 v = Some ([], v1)" and "GetTime v1 = Some (t, v2)"
      and "COMMUNICATION_TIMEOUT k \<le> t - start"
    using that by (rule timeout_exit_ConverseString)
  moreover have "ConverseBinary_loop k commandString len start inHeader inFooter result bytesRead
               dataRead data v
             = Some (dataRead, data, Log ErrTimeout v2)"
    if "ReadRawData 1 v = Some ([], v1)" and "GetTime v1 = Some (t, v2)"
      and "COMMUNICATION_TIMEOUT k \<le> t - start" and "inHeader \<or> inFooter"
    using that by (rule timeout_exit_ConverseBinary)
  moreover have "n = 0 \<or> len \<le> n"
    if "ConverseBinary k commandString d len w0 = Some (n, data', w')"
      and "logs w' \<noteq> []" and "last (logs w') = ErrResponseTooLong m"
    using ConverseBinary_count [OF that(1)] that(3) by auto
  ultimately show ?thesis by blast
qed

text \<open>
  One more byte at a full budget, and a timeout, in \<^verbatim>\<open>ConverseString\<close> and in the footer
  phase of \<^verbatim>\<open>ConverseBinary\<close>; and the whole exchange of \<open>long_footer_world\<close>.
\<close>

theorem C6_budget_exceeded_witness:
  "ReadRawData 1 last_byte_world = Some (''a'', last_byte_world\<lparr>rx := []\<rparr>)
   \<and> MAX_RESPONSE_SIZE example_h \<le> 32
   \<and> ConverseString_loop example_h 0 ''xyz'' 32 last_byte_world
       = Some (''xyza'', last_byte_world\<lparr>rx := [], logs := [ErrResponseTooLong 33]\<rparr>)
   \<and> ConverseBinary_loop example_h ''scanraw 100 201 2'' 8 0 False True ''xyz'' 32 8 good_payload
         last_byte_world
       = Some (8, good_payload, last_byte_world\<lparr>rx := [], logs := [ErrResponseTooLong 33]\<rparr>)
   \<and> ReadRawData 1 silent_world = Some ([], silent_world\<lparr>rx := []\<rparr>)
   \<and> GetTime (silent_world\<lparr>rx := []\<rparr>) = Some (6, silent_world\<lparr>rx := [], clock := []\<rparr>)
   \<and> COMMUNICATION_TIMEOUT example_h \<le> 6 - 0
   \<and> ConverseString_loop example_h 0 ''xyz'' 32 silent_world
       = Some (''xyz'', silent_world\<lparr>rx := [], clock := [], logs := [ErrTimeout]\<rparr>)
   \<and> ConverseBinary_loop example_h ''scanraw 100 201 2'' 8 0 False True ''xyz'' 32 8 good_payload
         silent_world
       = Some (8, good_payload, silent_world\<lparr>rx := [], clock := [], logs := [ErrTimeout]\<rparr>)
   \<and> ConverseBinary example_h ''scanraw 100 201 2'' [] 8 long_footer_world
       = Some (8, good_payload, long_footer_end)
   \<and> last (logs long_footer_end) = ErrResponseTooLong 33
   \<and> (8 = (0 :: nat) \<or> (8 :: nat) \<le> 8)"
proof -
  have r: "ReadRawData 1 last_byte_world = Some (''a'', last_byte_world\<lparr>rx := []\<rparr>)"
    and m: "MAX_RESPONSE_SIZE example_h \<le> 32"
    by (simp_all add: ReadRawData_def last_byte_world_def example_h_def)
  have r': "ReadRawData 1 silent_world = Some ([], silent_world\<lparr>rx := []\<rparr>)"
    and g: "GetTime (silent_world\<lparr>rx := []\<rparr>)
              = Some (6, silent_world\<lparr>rx := [], clock := []\<rparr>)"
    and o: "COMMUNICATION_TIMEOUT example_h \<le> 6 - 0"
    by (simp_all add: ReadRawData_def GetTime_def silent_world_def example_h_def)
  have c: "ConverseBinary example_h ''scanraw 100 201 2'' [] 8 long_footer_world
       = Some (8, good_payload, long_footer_end)"
    using long_footer_read by (simp add: scanraw2 payload2 long_footer_end_def)
  have l: "logs long_footer_end \<noteq> []" "last (logs long_footer_end) = ErrResponseTooLong 33"
    by (simp_all add: long_footer_end_def)
  from C6_budget_exceeded [where w = last_byte_world and b = "CHR ''a''"
      and ?w1.0 = "last_byte_world\<lparr>rx := []\<rparr>" and k = example_h and bytesRead = 32
      and start = 0 and result = "''xyz''" and inHeader = False and inFooter = True
      and commandString = "''scanraw 100 201 2''" and len = 8 and dataRead = 8
      and data = good_payload and v = silent_world and ?v1.0 = "silent_world\<lparr>rx := []\<rparr>"
      and t = 6 and ?v2.0 = "silent_world\<lparr>rx := [], clock := []\<rparr>"
      and d = "[]" and ?w0.0 = long_footer_world and n = 8
      and data' = good_payload and w' = long_footer_end and m = 33]
    r m r' g o c l
  show ?thesis by (simp add: Log_def last_byte_world_def silent_world_def)
qed

text \<open>
  C7.  For every payload that was read whole, whatever its first byte, its last byte and
  its point-header bytes are, \<^verbatim>\<open>AcquireData\<close> returns true, decodes all \<open>N\<close> samples and
  appends one SequenceSet to the pending queue, which holds the waveform for the channel when
  the channel is enabled.  A byte that is not the expected marker adds a warning to the log
  (\<open>bracket_warnings\<close>, \<open>point_warnings\<close>) and changes nothing else.
\<close>

theorem C7_markers_not_fatal:
  assumes "0 < m_sampleDepth s" and "3 * m_sampleDepth s + 2 < size_t_max"
    and "ConverseBinary k (scanraw_command s) [] (payload_length (m_sampleDepth s)) w
           = Some (payload_length (m_sampleDepth s), data, w1)"
    and "GetTime w1 = Some (tstart, w2)"
  shows "\<exists>s' w' cap.
           AcquireData k round_double FindPeaks s w = Some (Inr (True, s', w'))
         \<and> m_pendingWaveforms s'
             = m_pendingWaveforms s @ [if channel_enabled s then [(0, cap)] else []]
         \<and> m_peaks s' = FindPeaks cap 10 500000
         \<and> length (m_samples cap) = m_sampleDepth s
         \<and> (\<forall>j < m_sampleDepth s.
               m_samples cap ! j
                 = sample_value (data ! (2 + 3 * j)) (data ! (3 + 3 * j)) (m_modelDbmOffset s))
         \<and> logs w' = logs w2 @ bracket_warnings data (m_sampleDepth s)
                        @ point_warnings data 0 (m_sampleDepth s)"
proof -
  let ?cap = "acquired_waveform k round_double s tstart data"
  obtain s' w' where run: "AcquireData k round_double FindPeaks s w = Some (Inr (True, s', w'))"
    and s': "s' = s\<lparr>m_peaks := FindPeaks ?cap 10 500000,
         m_pendingWaveforms := m_pendingWaveforms s
            @ [if channel_enabled s then [(0, ?cap)] else []],
         m_triggerArmed := (if m_triggerOneShot s then False else m_triggerArmed s)\<rparr>"
    and w': "w' = w2\<lparr>logs := logs w2 @ bracket_warnings data (m_sampleDepth s)
                      @ point_warnings data 0 (m_sampleDepth s)\<rparr>"
    using AcquireData_success [OF assms, where FindPeaks = FindPeaks and round_double = round_double] by simp
  show ?thesis
  proof (intro exI conjI)
    show "AcquireData k round_double FindPeaks s w = Some (Inr (True, s', w'))" by (rule run)
    show "m_pendingWaveforms s'
             = m_pendingWaveforms s @ [if channel_enabled s then [(0, ?cap)] else []]"
      by (simp add: s')
    show "m_peaks s' = FindPeaks ?cap 10 500000" by (simp add: s')
    show "length (m_samples ?cap) = m_sampleDepth s"
      by (simp add: acquired_waveform_def decoded_samples_def)
    show "\<forall>j < m_sampleDepth s. m_samples ?cap ! j
        = sample_value (data ! (2 + 3 * j)) (data ! (3 + 3 * j)) (m_modelDbmOffset s)"
      by (simp add: acquired_waveform_def decoded_samples_def)
    show "logs w' = logs w2 @ bracket_warnings data (m_sampleDepth s)
                        @ point_warnings data 0 (m_sampleDepth s)"
      by (simp add: w')
  qed
qed

text \<open>
A payload with a wrong closing bracket and a wrong point header.
\<close>

theorem C7_markers_not_fatal_witness:
  "0 < m_sampleDepth (example_tinysa 2)
   \<and> 3 * m_sampleDepth (example_tinysa 2) + 2 < size_t_max
   \<and> odd_payload ! 7 \<noteq> CHR ''}'' \<and> odd_payload ! 4 \<noteq> CHR ''x''
   \<and> (\<exists>s' w' cap.
         AcquireData example_h no_rounding no_peaks (example_tinysa 2) full_read_world
           = Some (Inr (True, s', w'))
       \<and> m_pendingWaveforms s' = [[(0, cap)]]
       \<and> length (m_samples cap) = 2
       \<and> m_samples cap ! 0 = 1 \<and> m_samples cap ! 1 = 61439 / 32
       \<and> logs w' = [WarnInvalidClosingByte (CHR '']''), WarnInvalidPointHeader (CHR ''y'')])"
proof -
  have n: "0 < m_sampleDepth (example_tinysa 2)"
    and m: "3 * m_sampleDepth (example_tinysa 2) + 2 < size_t_max"
    by (simp_all add: example_tinysa_def size_t_max_def)
  from C7_markers_not_fatal [OF n m full_read example_time, where FindPeaks = no_peaks and round_double = no_rounding]
  obtain s' w' cap where
    "AcquireData example_h no_rounding no_peaks (example_tinysa 2) full_read_world
       = Some (Inr (True, s', w'))"
    "m_pendingWaveforms s' = m_pendingWaveforms (example_tinysa 2)
       @ [if channel_enabled (example_tinysa 2) then [(0, cap)] else []]"
    "length (m_samples cap) = m_sampleDepth (example_tinysa 2)"
    "\<forall>j < m_sampleDepth (example_tinysa 2). m_samples cap ! j
       = sample_value (odd_payload ! (2 + 3 * j)) (odd_payload ! (3 + 3 * j))
           (m_modelDbmOffset (example_tinysa 2))"
    "logs w' = logs \<lparr>rx = [], clock = [], tx = [''scanraw 100 201 2'' @ [CHR 0x0D, CHR 0x0A]],
          logs = []\<rparr> @ bracket_warnings odd_payload (m_sampleDepth (example_tinysa 2))
          @ point_warnings odd_payload 0 (m_sampleDepth (example_tinysa 2))"
    by blast
  then have "AcquireData example_h no_rounding no_peaks (example_tinysa 2) full_read_world
           = Some (Inr (True, s', w'))
       \<and> m_pendingWaveforms s' = [[(0, cap)]]
       \<and> length (m_samples cap) = 2
       \<and> m_samples cap ! 0 = 1 \<and> m_samples cap ! 1 = 61439 / 32
       \<and> logs w' = [WarnInvalidClosingByte (CHR '']''), WarnInvalidPointHeader (CHR ''y'')]"
    by (simp add: example_tinysa_def odd_payload_def sample_value_def bracket_warnings_def
          point_warnings_def upt_conv_Cons)
  then have "\<exists>s' w' cap.
         AcquireData example_h no_rounding no_peaks (example_tinysa 2) full_read_world
           = Some (Inr (True, s', w'))
       \<and> m_pendingWaveforms s' = [[(0, cap)]]
       \<and> length (m_samples cap) = 2
       \<and> m_samples cap ! 0 = 1 \<and> m_samples cap ! 1 = 61439 / 32
       \<and> logs w' = [WarnInvalidClosingByte (CHR '']''), WarnInvalidPointHeader (CHR ''y'')]"
    by blast
  with n m show ?thesis by (simp add: odd_payload_def)
qed

text \<open>
  C8.  The waveform of a successful acquisition of \<open>N\<close> samples over the sweep range from
  \<^verbatim>\<open>m_sweepStart\<close> to \<^verbatim>\<open>m_sweepStop\<close> (start not above stop, both \<^verbatim>\<open>int64_t\<close>) has
  \<^verbatim>\<open>m_timescale\<close> = (stop - start) div N, \<^verbatim>\<open>m_triggerPhase\<close> = start,
  \<^verbatim>\<open>m_startTimestamp\<close> = the whole seconds of the clock reading \<open>tstart\<close> and
  \<^verbatim>\<open>m_startFemtoseconds\<close> = the whole part of the remaining fraction of a second times
  \<^verbatim>\<open>FS_PER_SECOND\<close>, the product rounded as a \<^verbatim>\<open>double\<close>.
\<close>

theorem C8_waveform_stamp:
  assumes "0 < m_sampleDepth s" and "3 * m_sampleDepth s + 2 < size_t_max"
    and "ConverseBinary k (scanraw_command s) [] (payload_length (m_sampleDepth s)) w
           = Some (payload_length (m_sampleDepth s), data, w1)"
    and "GetTime w1 = Some (tstart, w2)"
    and "m_sweepStart s \<le> m_sweepStop s" and "m_sweepStop s - m_sweepStart s < 2 ^ 63"
  shows "\<exists>s' w' cap.
           AcquireData k round_double FindPeaks s w = Some (Inr (True, s', w'))
         \<and> m_pendingWaveforms s'
             = m_pendingWaveforms s @ [if channel_enabled s then [(0, cap)] else []]
         \<and> m_peaks s' = FindPeaks cap 10 500000
         \<and> m_timescale cap = (m_sweepStop s - m_sweepStart s) div int (m_sampleDepth s)
         \<and> m_triggerPhase cap = m_sweepStart s
         \<and> m_startTimestamp cap = \<lfloor>tstart\<rfloor>
         \<and> m_startFemtoseconds cap
             = double_to_int64
                 (round_double ((tstart - real_of_int (m_startTimestamp cap)) * FS_PER_SECOND k))
         \<and> real_of_int (m_startTimestamp cap) \<le> tstart
         \<and> tstart < real_of_int (m_startTimestamp cap) + 1"
proof -
  let ?cap = "acquired_waveform k round_double s tstart data"
  obtain s' w' where run: "AcquireData k round_double FindPeaks s w = Some (Inr (True, s', w'))"
    and s': "s' = s\<lparr>m_peaks := FindPeaks ?cap 10 500000,
         m_pendingWaveforms := m_pendingWaveforms s
            @ [if channel_enabled s then [(0, ?cap)] else []],
         m_triggerArmed := (if m_triggerOneShot s then False else m_triggerArmed s)\<rparr>"
    using AcquireData_success [OF assms(1-4), where FindPeaks = FindPeaks and round_double = round_double] by simp
  show ?thesis
  proof (intro exI conjI)
    show "AcquireData k round_double FindPeaks s w = Some (Inr (True, s', w'))" by (rule run)
    show "m_pendingWaveforms s'
             = m_pendingWaveforms s @ [if channel_enabled s then [(0, ?cap)] else []]"
      by (simp add: s')
    show "m_peaks s' = FindPeaks ?cap 10 500000" by (simp add: s')
    show "m_timescale ?cap = (m_sweepStop s - m_sweepStart s) div int (m_sampleDepth s)"
      using stepsize_eq [of "m_sweepStop s - m_sweepStart s" "m_sampleDepth s"] assms(5,6)
      by (simp add: acquired_waveform_def)
    show "m_triggerPhase ?cap = m_sweepStart s" by (simp add: acquired_waveform_def)
    show "m_startTimestamp ?cap = \<lfloor>tstart\<rfloor>" by (simp add: acquired_waveform_def)
    show "m_startFemtoseconds ?cap
             = double_to_int64
                 (round_double ((tstart - real_of_int (m_startTimestamp ?cap)) * FS_PER_SECOND k))"
      by (simp add: acquired_waveform_def)
    show "real_of_int (m_startTimestamp ?cap) \<le> tstart"
      by (simp add: acquired_waveform_def)
    show "tstart < real_of_int (m_startTimestamp ?cap) + 1"
      by (simp add: acquired_waveform_def)
  qed
qed

text \<open>
Sweep 100..201, two samples, read at 1.625 s.
\<close>

theorem C8_waveform_stamp_witness:
  "0 < m_sampleDepth (example_tinysa 2)
   \<and> 3 * m_sampleDepth (example_tinysa 2) + 2 < size_t_max
   \<and> m_sweepStart (example_tinysa 2) = 100 \<and> m_sweepStop (example_tinysa 2) = 201
   \<and> (\<exists>s' w' cap.
         AcquireData example_h no_rounding no_peaks (example_tinysa 2) full_read_world
           = Some (Inr (True, s', w'))
       \<and> m_pendingWaveforms s' = [[(0, cap)]]
       \<and> m_timescale cap = 50
       \<and> m_triggerPhase cap = 100
       \<and> m_startTimestamp cap = 1
       \<and> m_startFemtoseconds cap = 625000000000000)"
proof -
  have n: "0 < m_sampleDepth (example_tinysa 2)"
    and m: "3 * m_sampleDepth (example_tinysa 2) + 2 < size_t_max"
    and r: "m_sweepStart (example_tinysa 2) \<le> m_sweepStop (example_tinysa 2)"
      "m_sweepStop (example_tinysa 2) - m_sweepStart (example_tinysa 2) < 2 ^ 63"
    by (simp_all add: example_tinysa_def size_t_max_def)
  from C8_waveform_stamp [OF n m full_read example_time r, where FindPeaks = no_peaks and round_double = no_rounding]
  obtain s' w' cap where
    "AcquireData example_h no_rounding no_peaks (example_tinysa 2) full_read_world
       = Some (Inr (True, s', w'))"
    "m_pendingWaveforms s' = m_pendingWaveforms (example_tinysa 2)
       @ [if channel_enabled (example_tinysa 2) then [(0, cap)] else []]"
    "m_timescale cap = (m_sweepStop (example_tinysa 2) - m_sweepStart (example_tinysa 2))
        div int (m_sampleDepth (example_tinysa 2))"
    "m_triggerPhase cap = m_sweepStart (example_tinysa 2)"
    "m_startTimestamp cap = \<lfloor>13 / 8 :: real\<rfloor>"
    "m_startFemtoseconds cap
       = double_to_int64
           (no_rounding ((13 / 8 - real_of_int (m_startTimestamp cap)) * FS_PER_SECOND example_h))"
    by blast
  then have "AcquireData example_h no_rounding no_peaks (example_tinysa 2) full_read_world
           = Some (Inr (True, s', w'))
       \<and> m_pendingWaveforms s' = [[(0, cap)]]
       \<and> m_timescale cap = 50
       \<and> m_triggerPhase cap = 100
       \<and> m_startTimestamp cap = 1
       \<and> m_startFemtoseconds cap = 625000000000000"
    by (simp add: example_tinysa_def example_h_def double_to_int64_def no_rounding_def)
  then have "\<exists>s' w' cap.
         AcquireData example_h no_rounding no_peaks (example_tinysa 2) full_read_world
           = Some (Inr (True, s', w'))
       \<and> m_pendingWaveforms s' = [[(0, cap)]]
       \<and> m_timescale cap = 50
       \<and> m_triggerPhase cap = 100
       \<and> m_startTimestamp cap = 1
       \<and> m_startFemtoseconds cap = 625000000000000"
    by blast
  with n m show ?thesis by (simp add: example_tinysa_def)
qed

text \<open>
  C9 (as the specification states it, refuted).  The claim says that after the switch with
  model \<^verbatim>\<open>TINY_SA\<close> the parameters differ from the values that branch assigns.  They do not:
  the branch runs on into \<^verbatim>\<open>default\<close>, which assigns nothing.
\<close>

theorem C9_fallthrough_changes_nothing:
  "\<not> (model_switch TINY_SA
        \<lparr>m_freqMin = 7, m_freqMax = 7, m_rbwMin = 7, m_rbwMax = 7, m_modelDbmOffset = 7\<rparr>
      \<noteq> \<lparr>m_freqMin = 0, m_freqMax = 6000000000, m_rbwMin = 1, m_rbwMax = 600000,
          m_modelDbmOffset = 128\<rparr>)"
  by (simp add: switch_TINY_SA_def switch_default_def TINY_SA_assignments_def)

text \<open>
  C9 (amended).  The branch of \<^verbatim>\<open>TINY_SA\<close> has no \<^verbatim>\<open>break\<close> and falls through into
  \<^verbatim>\<open>default\<close>; \<^verbatim>\<open>default\<close> only breaks, so nothing is overwritten: whatever the fields held
  before, after the switch they are the values the \<^verbatim>\<open>TINY_SA\<close> branch assigns
  (m_freqMin = 0, m_freqMax = 6000000000, m_rbwMin = 1, m_rbwMax = 600000,
  m_modelDbmOffset = 128).
\<close>

theorem C9_TINY_SA_limits:
  "model_switch TINY_SA l = switch_default (TINY_SA_assignments l)
   \<and> model_switch TINY_SA l = TINY_SA_assignments l
   \<and> m_freqMin (model_switch TINY_SA l) = 0
   \<and> m_freqMax (model_switch TINY_SA l) = 6000000000
   \<and> m_rbwMin (model_switch TINY_SA l) = 1
   \<and> m_rbwMax (model_switch TINY_SA l) = 600000
   \<and> m_modelDbmOffset (model_switch TINY_SA l) = 128"
  by (simp add: switch_TINY_SA_def switch_default_def TINY_SA_assignments_def)




end
